theory Spec2Isabelle
  imports Complex_Main
begin

section \<open>Errors\<close>

text \<open>
  The Go error values that \<^verbatim>\<open>nanoleaf.go\<close> creates, receives or inspects. A Go
  \<^verbatim>\<open>error\<close> that may be \<^verbatim>\<open>nil\<close> is an \<open>error option\<close>, \<open>None\<close> being \<^verbatim>\<open>nil\<close>.
  \<^item> \<open>DeadlineExceeded\<close>, \<open>Canceled\<close>: the two sentinel errors of package \<^verbatim>\<open>context\<close>;
  \<^item> \<open>NetError msg t\<close>: a value whose type implements \<^verbatim>\<open>net.Error\<close>, with
    \<^verbatim>\<open>Timeout()\<close> returning \<open>t\<close>, and that wraps nothing;
  \<^item> \<open>NetWrap msg t e\<close>: the same, wrapping \<open>e\<close> (as \<^verbatim>\<open>*url.Error\<close> and
    \<^verbatim>\<open>*net.OpError\<close> do);
  \<^item> \<open>ErrorString msg\<close>: \<^verbatim>\<open>errors.New\<close>, or \<^verbatim>\<open>fmt.Errorf\<close> with no \<^verbatim>\<open>%w\<close>;
  \<^item> \<open>WrapError msg e\<close>: \<^verbatim>\<open>fmt.Errorf("msg: %w", e)\<close>, whose type has an
    \<^verbatim>\<open>Unwrap\<close> method and no \<^verbatim>\<open>Timeout\<close> method;
  \<^item> \<open>JSONError msg\<close>: an error returned by \<^verbatim>\<open>json.Unmarshal\<close>.
\<close>

datatype error =
    DeadlineExceeded
  | Canceled
  | NetError string bool
  | NetWrap string bool error
  | ErrorString string
  | WrapError string error
  | JSONError string

text \<open>\<^verbatim>\<open>errors.Is(err, target)\<close>: \<open>target\<close> occurs on the \<^verbatim>\<open>Unwrap\<close> chain of \<open>err\<close>.\<close>

fun errors_Is :: "error \<Rightarrow> error \<Rightarrow> bool" where
  "errors_Is (NetWrap msg t e) target =
     (NetWrap msg t e = target \<or> errors_Is e target)"
| "errors_Is (WrapError msg e) target =
     (WrapError msg e = target \<or> errors_Is e target)"
| "errors_Is e target = (e = target)"

text \<open>
  The type assertion \<^verbatim>\<open>ne, ok := err.(net.Error)\<close> followed by \<^verbatim>\<open>ne.Timeout()\<close>:
  \<open>None\<close> when the assertion fails, otherwise the value of \<^verbatim>\<open>Timeout()\<close>. The
  assertion looks at the dynamic type of \<open>err\<close> itself and never unwraps.
  \<^verbatim>\<open>context.DeadlineExceeded\<close> has a \<^verbatim>\<open>Timeout\<close> method that returns true.
\<close>

fun net_Error_Timeout :: "error \<Rightarrow> bool option" where
  "net_Error_Timeout DeadlineExceeded = Some True"
| "net_Error_Timeout (NetError msg t) = Some t"
| "net_Error_Timeout (NetWrap msg t e) = Some t"
| "net_Error_Timeout e = None"

text \<open>\<^verbatim>\<open>retryableErr\<close> reports whether the error should cause another try.\<close>

fun retryableErr :: "error option \<Rightarrow> bool" where
  "retryableErr None = False"
| "retryableErr (Some err) =
     (if errors_Is err DeadlineExceeded then True
      else if (case net_Error_Timeout err of Some t \<Rightarrow> t | None \<Rightarrow> False) then True
      else False)"

text \<open>
  The two conditions the specification names, stated on their own, over the list of
  errors reached from a value by unwrapping (the value first). The first: the deadline
  error of a context is on that list. The second, a timeout reported by the underlying
  network error: some error on that list, the value or one that it wraps, is a network
  error and reports a timeout.
\<close>

fun chain :: "error \<Rightarrow> error list" where
  "chain (NetWrap msg t e) = NetWrap msg t e # chain e"
| "chain (WrapError msg e) = WrapError msg e # chain e"
| "chain e = [e]"

definition deadline_exceeded :: "error \<Rightarrow> bool" where
  "deadline_exceeded err = (DeadlineExceeded \<in> set (chain err))"

definition transport_timeout :: "error \<Rightarrow> bool" where
  "transport_timeout err = list_ex (\<lambda>e. net_Error_Timeout e = Some True) (chain err)"

definition spec_retryable :: "error option \<Rightarrow> bool" where
  "spec_retryable e =
     (case e of None \<Rightarrow> False
      | Some err \<Rightarrow> deadline_exceeded err \<or> transport_timeout err)"

section \<open>Durations and the retry parameters\<close>

text \<open>
  \<^verbatim>\<open>time.Duration\<close> is a signed 64-bit count of nanoseconds. The durations of the
  retry loop lie between 100 ms and 7.5 s, far from the bounds of the type, so they are
  integers here.
\<close>

type_synonym duration = int

definition Millisecond :: duration where "Millisecond = 1000000"

definition Second :: duration where "Second = 1000000000"

definition baseTimeout :: duration where "baseTimeout = 100 * Millisecond"

definition backoffMult :: rat where "backoffMult = 3 / 2"

definition maxTimeout :: duration where "maxTimeout = 5 * Second"

text \<open>
  The conversions of \<^verbatim>\<open>time.Duration(float64(timeout) * backoffMult)\<close>. A
  \<^verbatim>\<open>float64\<close> holds every integer below \<open>2^53\<close> in absolute value and every multiple
  of one half below \<open>2^52\<close> exactly, and \<open>1.5\<close> is a \<^verbatim>\<open>float64\<close>; on the timeouts of
  the loop (at most 5 s, that is \<open>5 * 10^9 < 2^33\<close>) the product is therefore exact and
  is the rational product. Converting a float to an integer type truncates towards zero.
\<close>

definition float64 :: "duration \<Rightarrow> rat" where
  "float64 t = of_int t"

definition Duration_of_float :: "rat \<Rightarrow> duration" where
  "Duration_of_float x = (if 0 \<le> x then \<lfloor>x\<rfloor> else \<lceil>x\<rceil>)"

text \<open>The last three statements of the loop body: the timeout of the next attempt.\<close>

definition next_timeout :: "duration \<Rightarrow> duration" where
  "next_timeout timeout =
     (let timeout' = Duration_of_float (float64 timeout * backoffMult)
      in if timeout' > maxTimeout then maxTimeout else timeout')"

section \<open>The controller and its trace hook\<close>

text \<open>
  An argument of a trace line. The hook \<^verbatim>\<open>Tracef\<close> is a Go function with effects of
  its own; here it is a transformer of a state \<open>'w\<close> that belongs to the hook (a log,
  a counter), given the format and the arguments. Its context argument is left out.
\<close>

datatype arg = ADuration duration | AString string

record 'w Controller =
  ip :: string
  authToken :: string
  Tracef :: "(string \<Rightarrow> arg list \<Rightarrow> 'w \<Rightarrow> 'w) option"

definition tracef :: "'w Controller \<Rightarrow> string \<Rightarrow> arg list \<Rightarrow> 'w \<Rightarrow> 'w" where
  "tracef c format args w =
     (case Tracef c of None \<Rightarrow> w | Some h \<Rightarrow> h format args w)"

definition Connect :: "string \<Rightarrow> string \<Rightarrow> 'w Controller" where
  "Connect ip' authToken' = \<lparr>ip = ip', authToken = authToken', Tracef = None\<rparr>"

definition api :: "'w Controller \<Rightarrow> string \<Rightarrow> string \<Rightarrow> string" where
  "api c token path = ''http://'' @ ip c @ '':16021/api/v1/'' @ token @ path"

section \<open>The retry loop\<close>

text \<open>
  What the loop cannot see from inside, as functions of the number \<open>k\<close> of the attempt
  (the calls of \<^verbatim>\<open>f\<close> made before it):
  \<^item> \<open>attempt k timeout\<close>: what the call \<^verbatim>\<open>f(sub)\<close> returns when the sub-context
    has the timeout \<open>timeout\<close>: \<open>Inl err\<close> for an error, \<open>Inr v\<close> for \<^verbatim>\<open>nil\<close>, with \<open>v\<close>
    what the operation stored for its caller (the HTTP response);
  \<^item> \<open>ctx_Err k\<close>: what \<^verbatim>\<open>ctx.Err()\<close> of the umbrella context returns when it is read
    after that attempt;
  \<^item> \<open>time_Since k\<close>: what \<^verbatim>\<open>time.Since(t0)\<close> is after that attempt.
\<close>

record 'a world =
  attempt :: "nat \<Rightarrow> duration \<Rightarrow> error + 'a"
  ctx_Err :: "nat \<Rightarrow> error option"
  time_Since :: "nat \<Rightarrow> duration"

text \<open>
  What a call of \<^verbatim>\<open>retry\<close> leaves behind: the value returned, the timeouts of the
  attempts made (one entry for each call of \<^verbatim>\<open>f\<close>, in order), and the state of the
  hook.
\<close>

record ('a, 'w) outcome =
  returned :: "error + 'a"
  timeouts :: "duration list"
  hook :: 'w

definition err_of :: "error + 'a \<Rightarrow> error option" where
  "err_of r = (case r of Inl e \<Rightarrow> Some e | Inr v \<Rightarrow> None)"

definition starting :: string where
  "starting = ''Nanoleaf operation starting with timeout %v''"

definition finished :: string where
  "finished = ''Nanoleaf operation finished after %v''"

definition giving_up :: string where
  "giving_up = ''Nanoleaf operation giving up''"

text \<open>
  The \<^verbatim>\<open>for\<close> loop of \<^verbatim>\<open>retry\<close>. It has no bound on the number of attempts, so a
  run that never returns is \<open>None\<close>. \<^verbatim>\<open>debugf\<close> returns at once (\<^verbatim>\<open>rawDebug\<close> is the
  constant false) and is left out. The source has the one loop variable \<open>timeout\<close>;
  \<open>k\<close> counts the calls of \<^verbatim>\<open>f\<close> made so far, to ask the world about the next one,
  and \<open>made\<close> lists their timeouts, to tell what the run did.
\<close>

partial_function (option) retry_loop ::
  "'w Controller \<Rightarrow> 'a world \<Rightarrow> nat \<Rightarrow> duration \<Rightarrow> duration list \<Rightarrow> 'w
   \<Rightarrow> ('a, 'w) outcome option"
where
  "retry_loop c env k timeout made w =
     (let w1 = tracef c starting [ADuration timeout] w;
          r = attempt env k timeout;
          made1 = made @ [timeout]
      in if \<not> retryableErr (err_of r) then
           Some \<lparr>returned = r, timeouts = made1,
                 hook = tracef c finished [ADuration (time_Since env k)] w1\<rparr>
         else (case ctx_Err env k of
                 Some e \<Rightarrow>
                   Some \<lparr>returned = Inl e, timeouts = made1,
                         hook = tracef c giving_up [] w1\<rparr>
               | None \<Rightarrow> retry_loop c env (Suc k) (next_timeout timeout) made1 w1))"

definition retry :: "'w Controller \<Rightarrow> 'a world \<Rightarrow> 'w \<Rightarrow> ('a, 'w) outcome option" where
  "retry c env w = retry_loop c env 0 baseTimeout [] w"

text \<open>The timeout of attempt \<open>k\<close> of a run: \<open>k\<close> steps from the base timeout.\<close>

definition timeout_at :: "nat \<Rightarrow> duration" where
  "timeout_at k = (next_timeout ^^ k) baseTimeout"

text \<open>
  Attempt \<open>k\<close> fails with a retryable error and the umbrella context is still live
  when it is read afterwards: the loop goes round again.
\<close>

definition goes_on :: "'a world \<Rightarrow> nat \<Rightarrow> duration \<Rightarrow> bool" where
  "goes_on env k timeout =
     (retryableErr (err_of (attempt env k timeout)) \<and> ctx_Err env k = None)"

text \<open>The state of the hook after the start lines of the attempts with timeouts \<open>ts\<close>.\<close>

definition started :: "'w Controller \<Rightarrow> duration list \<Rightarrow> 'w \<Rightarrow> 'w" where
  "started c ts w = fold (\<lambda>t. tracef c starting [ADuration t]) ts w"

text \<open>What a run returns and the attempts it makes, without the state of the hook.\<close>

definition observable :: "('a, 'w) outcome option \<Rightarrow> ((error + 'a) \<times> duration list) option" where
  "observable r = map_option (\<lambda>out. (returned out, timeouts out)) r"

section \<open>JSON request bodies\<close>

text \<open>
  The request values of the controller's methods are anonymous structs of structs whose
  leaves are booleans and integers. A struct is the list of its fields in declaration
  order, each with the key of its \<^verbatim>\<open>json\<close> tag and whether the tag says
  \<^verbatim>\<open>omitempty\<close>.
\<close>

datatype jvalue = JBool bool | JInt int | JStruct "jfield list"
  and jfield = JField string bool jvalue

text \<open>
  \<^verbatim>\<open>encoding/json\<close>: a field tagged \<^verbatim>\<open>omitempty\<close> is left out when its value is
  empty, which is false for a boolean and 0 for an integer; a struct is never empty.
\<close>

fun isEmptyValue :: "jvalue \<Rightarrow> bool" where
  "isEmptyValue (JBool b) = (\<not> b)"
| "isEmptyValue (JInt i) = (i = 0)"
| "isEmptyValue (JStruct fs) = False"

definition digit :: "nat \<Rightarrow> char" where
  "digit d = ''0123456789'' ! d"

fun show_nat :: "nat \<Rightarrow> string" where
  "show_nat n =
     (if n < 10 then [digit n]
      else show_nat (n div 10) @ [digit (n mod 10)])"

definition show_int :: "int \<Rightarrow> string" where
  "show_int i = (if i < 0 then CHR ''-'' # show_nat (nat (- i)) else show_nat (nat i))"

fun commas :: "string list \<Rightarrow> string" where
  "commas [] = []"
| "commas [s] = s"
| "commas (s # ss) = s @ CHR '','' # commas ss"

text \<open>
  \<^verbatim>\<open>json.Marshal\<close> on such a value: the compact encoding, fields in declaration
  order. It cannot fail on these types.
\<close>

fun encode :: "jvalue \<Rightarrow> string"
  and members :: "jfield list \<Rightarrow> string list" where
  "encode (JBool b) = (if b then ''true'' else ''false'')"
| "encode (JInt i) = show_int i"
| "encode (JStruct fs) = CHR ''{'' # commas (members fs) @ ''}''"
| "members [] = []"
| "members (JField name omitempty v # fs) =
     (if omitempty \<and> isEmptyValue v then members fs
      else (CHR 0x22 # name @ CHR 0x22 # CHR '':'' # encode v) # members fs)"

definition json_Marshal :: "jvalue \<Rightarrow> error + string" where
  "json_Marshal obj = Inr (encode obj)"

text \<open>The operator \<^verbatim>\<open>/\<close> of Go on integers: the quotient, rounded towards zero.\<close>

definition quot :: "int \<Rightarrow> int \<Rightarrow> int" where
  "quot a b = (if (a < 0) = (b < 0) then \<bar>a\<bar> div \<bar>b\<bar> else - (\<bar>a\<bar> div \<bar>b\<bar>))"

section \<open>HTTP exchanges\<close>

text \<open>
  A request as the closures of \<^verbatim>\<open>get\<close> and \<^verbatim>\<open>put\<close> build it: method, URL, body
  (\<open>None\<close> for the \<^verbatim>\<open>nil\<close> body of a GET), the \<^verbatim>\<open>Close\<close> flag, and the timeout of
  the sub-context it carries. A response: status code, status text, and what
  \<^verbatim>\<open>ioutil.ReadAll(resp.Body)\<close> returns (the bytes read and the error, if any).
\<close>

record request =
  req_method :: string
  req_url :: string
  req_body :: "string option"
  req_Close :: bool
  req_timeout :: duration

record response =
  StatusCode :: int
  Status :: string
  ReadAll :: "string \<times> error option"

text \<open>
  The network and the clock, as far as one call of \<^verbatim>\<open>get\<close> or \<^verbatim>\<open>put\<close> meets them:
  \<^item> \<open>NewRequestWithContext method url\<close>: the error of \<^verbatim>\<open>http.NewRequestWithContext\<close>
    (a URL that does not parse), \<open>None\<close> when the request is built;
  \<^item> \<open>Do k req\<close>: what \<^verbatim>\<open>http.DefaultClient.Do(req)\<close> returns on attempt \<open>k\<close>;
  \<^item> \<open>umbrella k\<close>: \<^verbatim>\<open>ctx.Err()\<close> of the caller's context read after attempt \<open>k\<close>;
  \<^item> \<open>clock k\<close>: \<^verbatim>\<open>time.Since(t0)\<close> after attempt \<open>k\<close>.
\<close>

record http =
  NewRequestWithContext :: "string \<Rightarrow> string \<Rightarrow> error option"
  Do :: "nat \<Rightarrow> request \<Rightarrow> error + response"
  umbrella :: "nat \<Rightarrow> error option"
  clock :: "nat \<Rightarrow> duration"

text \<open>The function literal that \<^verbatim>\<open>get\<close> hands to \<^verbatim>\<open>retry\<close>, on attempt \<open>k\<close>.\<close>

definition get_op :: "'w Controller \<Rightarrow> http \<Rightarrow> string \<Rightarrow> nat \<Rightarrow> duration \<Rightarrow> error + response" where
  "get_op c h path k t =
     (case NewRequestWithContext h ''GET'' (api c (authToken c) path) of
        Some err \<Rightarrow> Inl (WrapError ''preparing HTTP request'' err)
      | None \<Rightarrow>
          (case Do h k \<lparr>req_method = ''GET'', req_url = api c (authToken c) path,
                        req_body = None, req_Close = True, req_timeout = t\<rparr> of
             Inl err \<Rightarrow> Inl (WrapError ''making HTTP request'' err)
           | Inr resp \<Rightarrow> Inr resp))"

text \<open>The function literal that \<^verbatim>\<open>put\<close> hands to \<^verbatim>\<open>retry\<close>.\<close>

definition put_op ::
  "'w Controller \<Rightarrow> http \<Rightarrow> string \<Rightarrow> string \<Rightarrow> nat \<Rightarrow> duration \<Rightarrow> error + response" where
  "put_op c h path bytes k t =
     (case NewRequestWithContext h ''PUT'' (api c (authToken c) path) of
        Some err \<Rightarrow> Inl (WrapError ''preparing HTTP request'' err)
      | None \<Rightarrow>
          (case Do h k \<lparr>req_method = ''PUT'', req_url = api c (authToken c) path,
                        req_body = Some bytes, req_Close = True, req_timeout = t\<rparr> of
             Inl err \<Rightarrow> Inl (WrapError ''making HTTP request'' err)
           | Inr resp \<Rightarrow> Inr resp))"

definition get_world :: "'w Controller \<Rightarrow> http \<Rightarrow> string \<Rightarrow> response world" where
  "get_world c h path =
     \<lparr>attempt = get_op c h path, ctx_Err = umbrella h, time_Since = clock h\<rparr>"

definition put_world :: "'w Controller \<Rightarrow> http \<Rightarrow> string \<Rightarrow> string \<Rightarrow> response world" where
  "put_world c h path bytes =
     \<lparr>attempt = put_op c h path bytes, ctx_Err = umbrella h, time_Since = clock h\<rparr>"

text \<open>
  The requests that reach the transport in a run whose attempts had the timeouts \<open>ts\<close>:
  one for each attempt, unless the request cannot be built.
\<close>

definition sent ::
  "'w Controller \<Rightarrow> http \<Rightarrow> string \<Rightarrow> string \<Rightarrow> string option \<Rightarrow> duration list \<Rightarrow> request list" where
  "sent c h meth path bytes ts =
     (case NewRequestWithContext h meth (api c (authToken c) path) of
        Some err \<Rightarrow> []
      | None \<Rightarrow>
          map (\<lambda>t. \<lparr>req_method = meth, req_url = api c (authToken c) path,
                     req_body = bytes, req_Close = True, req_timeout = t\<rparr>) ts)"

text \<open>
  What a call of \<^verbatim>\<open>get\<close> leaves: the error or the decoded value, the requests sent,
  the inputs of the calls of \<^verbatim>\<open>json.Unmarshal\<close>, and the state of the hook.
\<close>

record ('d, 'w) fetched =
  got :: "error + 'd"
  get_requests :: "request list"
  unmarshalled :: "string list"
  get_hook :: 'w

text \<open>
  \<^verbatim>\<open>get\<close>. The decoder for the type of \<^verbatim>\<open>dst\<close> is the argument \<open>Unmarshal\<close>: it gives
  the message of a JSON error or the decoded value.
\<close>

definition get ::
  "'w Controller \<Rightarrow> http \<Rightarrow> (string \<Rightarrow> string + 'd) \<Rightarrow> string \<Rightarrow> 'w
   \<Rightarrow> ('d, 'w) fetched option" where
  "get c h Unmarshal path w =
     (let w0 = tracef c ''Nanoleaf GET to %s'' [AString (api c ''<tok>'' path)] w in
      case retry c (get_world c h path) w0 of
        None \<Rightarrow> None
      | Some out \<Rightarrow>
          (let reqs = sent c h ''GET'' path None (timeouts out) in
           case returned out of
             Inl err \<Rightarrow>
               Some \<lparr>got = Inl err, get_requests = reqs, unmarshalled = [],
                     get_hook = hook out\<rparr>
           | Inr resp \<Rightarrow>
               (let (bytes, err) = ReadAll resp in
                if StatusCode resp \<ge> 300 then
                  Some \<lparr>got = Inl (ErrorString (''HTTP response '' @ Status resp)),
                        get_requests = reqs, unmarshalled = [], get_hook = hook out\<rparr>
                else (case err of
                        Some e \<Rightarrow>
                          Some \<lparr>got = Inl (WrapError ''reading HTTP response body'' e),
                                get_requests = reqs, unmarshalled = [],
                                get_hook = hook out\<rparr>
                      | None \<Rightarrow>
                          Some \<lparr>got = (case Unmarshal bytes of
                                         Inl msg \<Rightarrow> Inl (JSONError msg)
                                       | Inr d \<Rightarrow> Inr d),
                                get_requests = reqs, unmarshalled = [bytes],
                                get_hook = hook out\<rparr>))))"

text \<open>
  What a call of \<^verbatim>\<open>put\<close> leaves: the error, the requests sent, the hook. \<^verbatim>\<open>put\<close>
  reads the body of the response and does nothing with it nor with the error of reading.
\<close>

record 'w stored =
  put_err :: "error option"
  put_requests :: "request list"
  put_hook :: 'w

definition put :: "'w Controller \<Rightarrow> http \<Rightarrow> string \<Rightarrow> jvalue \<Rightarrow> 'w \<Rightarrow> 'w stored option" where
  "put c h path obj w =
     (case json_Marshal obj of
        Inl err \<Rightarrow>
          Some \<lparr>put_err = Some (WrapError ''encoding JSON body'' err), put_requests = [],
                put_hook = w\<rparr>
      | Inr bytes \<Rightarrow>
          (let w0 = tracef c ''Nanoleaf PUT to %s'' [AString (api c ''<tok>'' path)] w in
           case retry c (put_world c h path bytes) w0 of
             None \<Rightarrow> None
           | Some out \<Rightarrow>
               (let reqs = sent c h ''PUT'' path (Some bytes) (timeouts out) in
                case returned out of
                  Inl err \<Rightarrow> Some \<lparr>put_err = Some err, put_requests = reqs, put_hook = hook out\<rparr>
                | Inr resp \<Rightarrow>
                    if StatusCode resp \<ge> 300 then
                      Some \<lparr>put_err = Some (ErrorString (''HTTP response '' @ Status resp)),
                            put_requests = reqs, put_hook = hook out\<rparr>
                    else Some \<lparr>put_err = None, put_requests = reqs, put_hook = hook out\<rparr>)))"

section \<open>The controller's methods\<close>

definition State ::
  "'w Controller \<Rightarrow> http \<Rightarrow> (string \<Rightarrow> string + 'd) \<Rightarrow> 'w \<Rightarrow> ('d, 'w) fetched option" where
  "State c h Unmarshal w = get c h Unmarshal ''/'' w"

definition Off :: "'w Controller \<Rightarrow> http \<Rightarrow> 'w \<Rightarrow> 'w stored option" where
  "Off c h w =
     put c h ''/state'' (JStruct [JField ''on'' False (JStruct [JField ''value'' False (JBool False)])]) w"

definition On :: "'w Controller \<Rightarrow> http \<Rightarrow> 'w \<Rightarrow> 'w stored option" where
  "On c h w =
     (let req = JStruct [JField ''on'' False (JStruct [JField ''value'' False (JBool True)])]
      in put c h ''/state'' req w)"

text \<open>
  The request value of \<^verbatim>\<open>SetBrightness\<close>: the zero value of the struct, then the two
  assignments. \<open>dur\<close> is a \<^verbatim>\<open>time.Duration\<close>; the conversion to \<^verbatim>\<open>int\<close> of its
  whole seconds (below \<open>2^34\<close>) changes nothing where \<^verbatim>\<open>int\<close> has 64 bits.
\<close>

definition SetBrightness_req :: "int \<Rightarrow> duration \<Rightarrow> jvalue" where
  "SetBrightness_req v dur =
     (let Duration = (if dur \<ge> 0 then quot dur Second else 0)
      in JStruct [JField ''brightness'' False
           (JStruct [JField ''value'' False (JInt v), JField ''duration'' True (JInt Duration)])])"

definition SetBrightness :: "'w Controller \<Rightarrow> http \<Rightarrow> int \<Rightarrow> duration \<Rightarrow> 'w \<Rightarrow> 'w stored option" where
  "SetBrightness c h v dur w = put c h ''/state'' (SetBrightness_req v dur) w"

section \<open>What a caller observes\<close>

text \<open>What a call of \<^verbatim>\<open>get\<close> or \<^verbatim>\<open>put\<close> leaves, without the state of the hook.\<close>

definition get_observable ::
  "('d, 'w) fetched option \<Rightarrow> ((error + 'd) \<times> request list \<times> string list) option" where
  "get_observable r = map_option (\<lambda>res. (got res, get_requests res, unmarshalled res)) r"

definition put_observable :: "'w stored option \<Rightarrow> (error option \<times> request list) option" where
  "put_observable r = map_option (\<lambda>res. (put_err res, put_requests res)) r"

section \<open>Scenarios\<close>

text \<open>
  A timed-out attempt as \<^verbatim>\<open>get\<close> and \<^verbatim>\<open>put\<close> report it: the error of the HTTP
  client, wrapping the deadline error of the sub-context, wrapped once more.
\<close>

definition timed_out :: error where
  "timed_out = WrapError ''making HTTP request'' (NetWrap ''Put'' True DeadlineExceeded)"

text \<open>
  \<open>flaky n\<close>: the first \<open>n\<close> attempts time out, every later one succeeds; the umbrella
  context stays live. \<open>cancelled n\<close>: every attempt times out, and the umbrella context
  is cancelled during attempt \<open>n\<close>. \<open>expired\<close>: the umbrella context is past its deadline
  from the start; the first attempt would time out, a second one would succeed.
  \<open>late\<close>: the umbrella context is cancelled from the start and every attempt succeeds.
  \<open>stuck\<close>: every attempt times out under an umbrella context that is never done.
  \<open>refused\<close>: the first attempt fails with an error that is not a timeout.
\<close>

definition flaky :: "nat \<Rightarrow> string world" where
  "flaky n = \<lparr>attempt = (\<lambda>k t. if k < n then Inl timed_out else Inr ''ok''),
              ctx_Err = (\<lambda>k. None),
              time_Since = (\<lambda>k. 42 * Millisecond)\<rparr>"

definition cancelled :: "nat \<Rightarrow> string world" where
  "cancelled n = \<lparr>attempt = (\<lambda>k t. Inl timed_out),
                  ctx_Err = (\<lambda>k. if k < n then None else Some Canceled),
                  time_Since = (\<lambda>k. 42 * Millisecond)\<rparr>"

definition expired :: "string world" where
  "expired = \<lparr>attempt = (\<lambda>k t. if k = 0 then Inl timed_out else Inr ''ok''),
              ctx_Err = (\<lambda>k. Some DeadlineExceeded),
              time_Since = (\<lambda>k. 42 * Millisecond)\<rparr>"

definition refused :: "string world" where
  "refused = \<lparr>attempt = (\<lambda>k t. if k = 0
                 then Inl (WrapError ''making HTTP request'' (NetError ''connection refused'' False))
                 else Inr ''ok''),
              ctx_Err = (\<lambda>k. None),
              time_Since = (\<lambda>k. 42 * Millisecond)\<rparr>"

definition late :: "string world" where
  "late = \<lparr>attempt = (\<lambda>k t. Inr ''ok''),
           ctx_Err = (\<lambda>k. Some Canceled),
           time_Since = (\<lambda>k. 42 * Millisecond)\<rparr>"

definition stuck :: "string world" where
  "stuck = \<lparr>attempt = (\<lambda>k t. Inl timed_out),
            ctx_Err = (\<lambda>k. None),
            time_Since = (\<lambda>k. 42 * Millisecond)\<rparr>"

definition quiet :: "unit Controller" where
  "quiet = Connect ''192.168.1.20'' ''token''"

text \<open>
  A hook that appends every trace line to a list, a controller that has it, and one for
  the same device that has no hook.
\<close>

type_synonym trace_line = "string \<times> arg list"

definition recorder :: "string \<Rightarrow> arg list \<Rightarrow> trace_line list \<Rightarrow> trace_line list" where
  "recorder format args ls = ls @ [(format, args)]"

definition traced :: "trace_line list Controller" where
  "traced = \<lparr>ip = ''192.168.1.20'', authToken = ''token'', Tracef = Some recorder\<rparr>"

definition silent :: "trace_line list Controller" where
  "silent = \<lparr>ip = ''192.168.1.20'', authToken = ''token'', Tracef = None\<rparr>"

text \<open>
  Four devices that answer at once: one that answers every request with 204, one that answers with 500 and
  a JSON body, one that answers with 200 and a JSON body, one that answers with 200 and
  a body that is not JSON. And a decoder that knows one document.
\<close>

definition answering :: "int \<Rightarrow> string \<Rightarrow> string \<Rightarrow> http" where
  "answering code text bytes =
     \<lparr>NewRequestWithContext = (\<lambda>m u. None),
      Do = (\<lambda>k r. Inr \<lparr>StatusCode = code, Status = text, ReadAll = (bytes, None)\<rparr>),
      umbrella = (\<lambda>k. None),
      clock = (\<lambda>k. 3 * Millisecond)\<rparr>"

definition healthy :: http where
  "healthy = answering 204 ''204 No Content'' []"

definition failing :: http where
  "failing = answering 500 ''500 Internal Server Error'' ''{\"name\":\"Left Panel\"}''"

definition serving :: http where
  "serving = answering 200 ''200 OK'' ''{\"name\":\"Left Panel\"}''"

definition garbled :: http where
  "garbled = answering 200 ''200 OK'' ''<html>''"

text \<open>
  A connection attempt that the operating system gives up on: the error of the HTTP
  client (a \<^verbatim>\<open>*url.Error\<close>) around the error of the dialer, both network errors that
  report a timeout, with no deadline error of a context inside. The same error as
  \<^verbatim>\<open>get\<close> and \<^verbatim>\<open>put\<close> pass it on. And a device that is reached on the second
  attempt only, the first ending in that error.
\<close>

definition connect_timeout :: error where
  "connect_timeout = NetWrap ''Get'' True (NetError ''connect: connection timed out'' True)"

definition wrapped_timeout :: error where
  "wrapped_timeout = WrapError ''making HTTP request'' connect_timeout"

definition dropping :: http where
  "dropping =
     \<lparr>NewRequestWithContext = (\<lambda>m u. None),
      Do = (\<lambda>k r. if k = 0 then Inl connect_timeout
                  else Inr \<lparr>StatusCode = 200, Status = ''200 OK'',
                            ReadAll = (''{\"name\":\"Left Panel\"}'', None)\<rparr>),
      umbrella = (\<lambda>k. None),
      clock = (\<lambda>k. 3 * Millisecond)\<rparr>"

definition name_of :: "string \<Rightarrow> string + string" where
  "name_of bytes =
     (if bytes = ''{\"name\":\"Left Panel\"}'' then Inr ''Left Panel''
      else Inl ''unexpected end of JSON input'')"

text \<open>The request of a power switch, as the specification describes it.\<close>

definition power_request :: "'w Controller \<Rightarrow> bool \<Rightarrow> request" where
  "power_request c on =
     \<lparr>req_method = ''PUT'',
      req_url = ''http://'' @ ip c @ '':16021/api/v1/'' @ authToken c @ ''/state'',
      req_body = Some (if on then ''{\"on\":{\"value\":true}}'' else ''{\"on\":{\"value\":false}}''),
      req_Close = True,
      req_timeout = 100 * Millisecond\<rparr>"

section \<open>The retryability classifier\<close>

lemma errors_Is_chain: "errors_Is err target = (target \<in> set (chain err))"
  by (induction err) auto

text \<open>
  What the code decides: the deadline error is on the chain of the value, or the value
  itself (the type assertion does not unwrap) is a network error reporting a timeout.
\<close>

lemma retryableErr_code:
  "retryableErr (Some err) = (deadline_exceeded err \<or> net_Error_Timeout err = Some True)"
  by (cases "net_Error_Timeout err") (auto simp: deadline_exceeded_def errors_Is_chain)

lemma chain_first: "\<exists>es. chain err = err # es"
  by (cases err) simp_all

text \<open>Whatever the code retries is a timeout in the sense of the specification.\<close>

lemma retryableErr_sound: "retryableErr e \<Longrightarrow> spec_retryable e"
proof (cases e)
  case None
  assume "retryableErr e"
  with None show ?thesis by simp
next
  case (Some err)
  assume "retryableErr e"
  with Some have "deadline_exceeded err \<or> net_Error_Timeout err = Some True"
    by (simp only: retryableErr_code)
  moreover obtain es where "chain err = err # es"
    using chain_first by blast
  ultimately show ?thesis
    using Some by (auto simp: spec_retryable_def transport_timeout_def)
qed

text \<open>On a value that wraps nothing the two agree.\<close>

lemma retryableErr_unwrapped:
  "chain err = [err] \<Longrightarrow> retryableErr (Some err) = spec_retryable (Some err)"
  unfolding retryableErr_code spec_retryable_def transport_timeout_def
  by simp

text \<open>
  Instances: the deadline error, bare and wrapped, and a bare network timeout are
  retryable; \<^verbatim>\<open>nil\<close>, a plain error, a network error that is not a timeout,
  cancellation and a JSON error are not.
\<close>

lemma retryableErr_instances:
  "retryableErr (Some DeadlineExceeded)
   \<and> retryableErr (Some (WrapError msg (NetWrap msg' True DeadlineExceeded)))
   \<and> retryableErr (Some (NetError msg True))
   \<and> retryableErr (Some (NetWrap msg True (NetError msg' True)))
   \<and> \<not> retryableErr None
   \<and> \<not> retryableErr (Some (ErrorString msg))
   \<and> \<not> retryableErr (Some (WrapError msg (ErrorString msg')))
   \<and> \<not> retryableErr (Some (NetError msg False))
   \<and> \<not> retryableErr (Some (WrapError msg (NetWrap msg' False (ErrorString msg''))))
   \<and> \<not> retryableErr (Some Canceled)
   \<and> \<not> retryableErr (Some (WrapError msg Canceled))
   \<and> \<not> retryableErr (Some (JSONError msg))"
  by simp

section \<open>The sequence of timeouts\<close>

lemma next_timeout_eq: "0 \<le> t \<Longrightarrow> next_timeout t = min (3 * t div 2) maxTimeout"
proof -
  assume t: "0 \<le> t"
  have "float64 t * backoffMult = of_int (3 * t) / of_int 2"
    by (simp add: float64_def backoffMult_def)
  then have "\<lfloor>float64 t * backoffMult\<rfloor> = 3 * t div 2"
    by (simp only: floor_divide_of_int_eq)
  moreover have "0 \<le> float64 t * backoffMult"
    using t by (simp add: float64_def backoffMult_def)
  ultimately show ?thesis
    by (simp add: next_timeout_def Duration_of_float_def Let_def min_def)
qed

lemma next_timeout_ge: "0 \<le> t \<Longrightarrow> t \<le> maxTimeout \<Longrightarrow> t \<le> next_timeout t"
  by (simp add: next_timeout_eq)

lemma next_timeout_le: "0 \<le> t \<Longrightarrow> next_timeout t \<le> maxTimeout"
  by (simp add: next_timeout_eq)

lemma timeout_at_Suc: "timeout_at (Suc k) = next_timeout (timeout_at k)"
  by (simp add: timeout_at_def)

lemma timeout_at_range: "baseTimeout \<le> timeout_at k \<and> timeout_at k \<le> maxTimeout"
proof (induction k)
  case 0
  show ?case
    by (simp add: timeout_at_def baseTimeout_def maxTimeout_def Millisecond_def Second_def)
next
  case (Suc k)
  have pos: "0 \<le> timeout_at k"
    using Suc by (simp add: baseTimeout_def Millisecond_def)
  have "timeout_at k \<le> next_timeout (timeout_at k)"
    using pos Suc by (simp add: next_timeout_ge)
  moreover have "next_timeout (timeout_at k) \<le> maxTimeout"
    using pos by (rule next_timeout_le)
  ultimately show ?case
    using Suc by (simp add: timeout_at_Suc)
qed

lemma timeout_at_mono_step: "timeout_at k \<le> timeout_at (Suc k)"
proof -
  have "0 \<le> timeout_at k" "timeout_at k \<le> maxTimeout"
    using timeout_at_range [of k] by (simp_all add: baseTimeout_def Millisecond_def)
  then show ?thesis
    by (simp add: timeout_at_Suc next_timeout_ge)
qed

lemma pow_ratio: "10 \<le> k \<Longrightarrow> (50::int) * 2 ^ k \<le> 3 ^ k"
proof (induction k rule: dec_induct)
  case base
  show ?case by simp
next
  case (step n)
  have "(50::int) * 2 ^ Suc n = 2 * (50 * 2 ^ n)" by simp
  also have "\<dots> \<le> 2 * 3 ^ n" using step.IH by simp
  also have "\<dots> \<le> 3 ^ Suc n" by simp
  finally show ?case .
qed

lemma scaled_small: "k < 10 \<Longrightarrow> 100000000 * 3 ^ k div 2 ^ k < (5000000000::int)"
proof -
  assume "k < 10"
  then have "k \<in> {0, 1, 2, 3, 4, 5, 6, 7, 8, 9}" by auto
  then show ?thesis by auto
qed

lemma scaled_large: "10 \<le> k \<Longrightarrow> (5000000000::int) \<le> 100000000 * 3 ^ k div 2 ^ k"
proof -
  assume "10 \<le> k"
  then have "(50::int) * 2 ^ k \<le> 3 ^ k" by (rule pow_ratio)
  then have "5000000000 * 2 ^ k \<le> (100000000::int) * 3 ^ k" by simp
  then have "5000000000 * 2 ^ k div 2 ^ k \<le> (100000000::int) * 3 ^ k div 2 ^ k"
    by (rule zdiv_mono1) simp
  then show ?thesis by simp
qed

lemma timeout_at_small:
  "k < 10 \<Longrightarrow> timeout_at k = 100000000 * 3 ^ k div 2 ^ k"
proof -
  assume "k < 10"
  then have "k \<in> {0, 1, 2, 3, 4, 5, 6, 7, 8, 9}" by auto
  then show ?thesis
    by (auto simp: timeout_at_def eval_nat_numeral next_timeout_eq baseTimeout_def
                   maxTimeout_def Millisecond_def Second_def)
qed

lemma timeout_at_large: "10 \<le> k \<Longrightarrow> timeout_at k = maxTimeout"
proof (induction k rule: dec_induct)
  case base
  have "timeout_at 9 = 3844335937"
    by (simp add: timeout_at_small)
  then show ?case
    by (simp add: eval_nat_numeral timeout_at_Suc next_timeout_eq maxTimeout_def Second_def)
next
  case (step n)
  then show ?case
    by (simp add: timeout_at_Suc next_timeout_eq maxTimeout_def Second_def)
qed

lemma timeout_at_closed:
  "timeout_at k = min (100000000 * 3 ^ k div 2 ^ k) 5000000000"
proof (cases "k < 10")
  case True
  then show ?thesis
    using scaled_small [of k] by (simp add: timeout_at_small)
next
  case False
  then show ?thesis
    using scaled_large [of k] by (simp add: timeout_at_large maxTimeout_def Second_def)
qed

lemma floor_scaled:
  "\<lfloor>of_int baseTimeout * backoffMult ^ k\<rfloor> = 100000000 * 3 ^ k div 2 ^ k"
proof -
  have "(of_int baseTimeout * backoffMult ^ k :: rat)
        = of_int (100000000 * 3 ^ k) / of_int (2 ^ k)"
    by (simp add: baseTimeout_def Millisecond_def backoffMult_def power_divide)
  then show ?thesis
    by (simp only: floor_divide_of_int_eq)
qed

section \<open>How a run of the loop unfolds\<close>

lemma retry_loop_returns:
  "\<not> retryableErr (err_of (attempt env k t)) \<Longrightarrow>
   retry_loop c env k t made w =
     Some \<lparr>returned = attempt env k t, timeouts = made @ [t],
           hook = tracef c finished [ADuration (time_Since env k)]
                    (tracef c starting [ADuration t] w)\<rparr>"
  by (subst retry_loop.simps) (simp add: Let_def)

lemma retry_loop_gives_up:
  "retryableErr (err_of (attempt env k t)) \<Longrightarrow> ctx_Err env k = Some e \<Longrightarrow>
   retry_loop c env k t made w =
     Some \<lparr>returned = Inl e, timeouts = made @ [t],
           hook = tracef c giving_up [] (tracef c starting [ADuration t] w)\<rparr>"
  by (subst retry_loop.simps) (simp add: Let_def)

lemma retry_loop_goes_on:
  "goes_on env k t \<Longrightarrow>
   retry_loop c env k t made w =
     retry_loop c env (Suc k) (next_timeout t) (made @ [t])
       (tracef c starting [ADuration t] w)"
  by (subst retry_loop.simps) (simp add: Let_def goes_on_def)

lemma retry_loop_steps:
  "(\<And>i. i < n \<Longrightarrow> goes_on env (k + i) ((next_timeout ^^ i) t)) \<Longrightarrow>
   retry_loop c env k t made w =
     retry_loop c env (k + n) ((next_timeout ^^ n) t)
       (made @ map (\<lambda>i. (next_timeout ^^ i) t) [0..<n])
       (started c (map (\<lambda>i. (next_timeout ^^ i) t) [0..<n]) w)"
proof (induction n)
  case 0
  show ?case by (simp add: started_def)
next
  case (Suc n)
  have "goes_on env (k + n) ((next_timeout ^^ n) t)"
    by (rule Suc.prems) simp
  then have "retry_loop c env (k + n) ((next_timeout ^^ n) t)
               (made @ map (\<lambda>i. (next_timeout ^^ i) t) [0..<n])
               (started c (map (\<lambda>i. (next_timeout ^^ i) t) [0..<n]) w)
             = retry_loop c env (k + Suc n) ((next_timeout ^^ Suc n) t)
               (made @ map (\<lambda>i. (next_timeout ^^ i) t) [0..<Suc n])
               (started c (map (\<lambda>i. (next_timeout ^^ i) t) [0..<Suc n]) w)"
    by (simp add: retry_loop_goes_on started_def)
  moreover have "retry_loop c env k t made w =
     retry_loop c env (k + n) ((next_timeout ^^ n) t)
       (made @ map (\<lambda>i. (next_timeout ^^ i) t) [0..<n])
       (started c (map (\<lambda>i. (next_timeout ^^ i) t) [0..<n]) w)"
    by (rule Suc.IH) (simp add: Suc.prems)
  ultimately show ?case by simp
qed

lemma retry_loop_Some:
  assumes "retry_loop c env k t made w = Some out"
  shows "\<exists>n. (\<forall>i<n. goes_on env (k + i) ((next_timeout ^^ i) t))
           \<and> \<not> goes_on env (k + n) ((next_timeout ^^ n) t)"
proof (rule retry_loop.raw_induct
    [where P = "\<lambda>c env k t made w out.
       \<exists>n. (\<forall>i<n. goes_on env (k + i) ((next_timeout ^^ i) t))
           \<and> \<not> goes_on env (k + n) ((next_timeout ^^ n) t)", OF _ assms], goal_cases)
  case (1 loop c env k t made w out)
  show ?case
  proof (cases "goes_on env k t")
    case False
    then have "(\<forall>i<0. goes_on env (k + i) ((next_timeout ^^ i) t))
               \<and> \<not> goes_on env (k + 0) ((next_timeout ^^ 0) t)"
      by simp
    then show ?thesis by blast
  next
    case True
    then have "loop c env (Suc k) (next_timeout t) (made @ [t])
                 (tracef c starting [ADuration t] w) = Some out"
      using 1(2) by (simp add: Let_def goes_on_def)
    then obtain n where n:
      "\<forall>i<n. goes_on env (Suc k + i) ((next_timeout ^^ i) (next_timeout t))"
      "\<not> goes_on env (Suc k + n) ((next_timeout ^^ n) (next_timeout t))"
      using 1(1) by blast
    have "\<forall>i<Suc n. goes_on env (k + i) ((next_timeout ^^ i) t)"
    proof (intro allI impI)
      fix i assume "i < Suc n"
      show "goes_on env (k + i) ((next_timeout ^^ i) t)"
      proof (cases i)
        case 0
        then show ?thesis using True by simp
      next
        case (Suc j)
        then have "j < n" using \<open>i < Suc n\<close> by simp
        then show ?thesis using n(1) Suc by (simp add: funpow_swap1)
      qed
    qed
    moreover have "\<not> goes_on env (k + Suc n) ((next_timeout ^^ Suc n) t)"
      using n(2) by (simp add: funpow_swap1)
    ultimately show ?thesis by blast
  qed
qed

lemma timeouts_upto: "map (\<lambda>i. (next_timeout ^^ i) baseTimeout) [0..<n] = map timeout_at [0..<n]"
  by (simp add: timeout_at_def)

lemma retry_reaches:
  assumes "\<And>k. k < n \<Longrightarrow> goes_on env k (timeout_at k)"
  shows "retry c env w =
     retry_loop c env n (timeout_at n) (map timeout_at [0..<n])
       (started c (map timeout_at [0..<n]) w)"
proof -
  have "\<And>i. i < n \<Longrightarrow> goes_on env (0 + i) ((next_timeout ^^ i) baseTimeout)"
    using assms by (simp add: timeout_at_def)
  then have "retry_loop c env 0 baseTimeout [] w =
     retry_loop c env (0 + n) ((next_timeout ^^ n) baseTimeout)
       ([] @ map (\<lambda>i. (next_timeout ^^ i) baseTimeout) [0..<n])
       (started c (map (\<lambda>i. (next_timeout ^^ i) baseTimeout) [0..<n]) w)"
    by (rule retry_loop_steps)
  then show ?thesis
    by (simp add: retry_def timeouts_upto) (simp add: timeout_at_def)
qed

text \<open>
  The two ways a run ends, from the start of \<^verbatim>\<open>retry\<close>: after \<open>n\<close> rounds that go on,
  attempt \<open>n\<close> either returns something not retryable, or fails retryably with the
  umbrella context done.
\<close>

lemma retry_ends_returning:
  assumes "\<And>k. k < n \<Longrightarrow> goes_on env k (timeout_at k)"
    and "\<not> retryableErr (err_of (attempt env n (timeout_at n)))"
  shows "retry c env w =
     Some \<lparr>returned = attempt env n (timeout_at n), timeouts = map timeout_at [0..<Suc n],
           hook = tracef c finished [ADuration (time_Since env n)]
                    (started c (map timeout_at [0..<Suc n]) w)\<rparr>"
  using assms(2) by (simp add: retry_reaches [OF assms(1)] retry_loop_returns started_def)

lemma retry_ends_giving_up:
  assumes "\<And>k. k < n \<Longrightarrow> goes_on env k (timeout_at k)"
    and "retryableErr (err_of (attempt env n (timeout_at n)))"
    and "ctx_Err env n = Some e"
  shows "retry c env w =
     Some \<lparr>returned = Inl e, timeouts = map timeout_at [0..<Suc n],
           hook = tracef c giving_up [] (started c (map timeout_at [0..<Suc n]) w)\<rparr>"
  using assms(2,3)
  by (simp add: retry_reaches [OF assms(1)] retry_loop_gives_up started_def)

lemma retry_Some:
  assumes "retry c env w = Some out"
  shows "\<exists>n. (\<forall>k<n. goes_on env k (timeout_at k)) \<and> \<not> goes_on env n (timeout_at n)"
proof -
  from assms obtain n where
    "\<forall>i<n. goes_on env (0 + i) ((next_timeout ^^ i) baseTimeout)"
    "\<not> goes_on env (0 + n) ((next_timeout ^^ n) baseTimeout)"
    unfolding retry_def by (blast dest: retry_loop_Some)
  then have "(\<forall>k<n. goes_on env k (timeout_at k)) \<and> \<not> goes_on env n (timeout_at n)"
    by (simp add: timeout_at_def)
  then show ?thesis by blast
qed

text \<open>A run that stops going on somewhere returns.\<close>

lemma retry_stops:
  assumes "\<not> goes_on env m (timeout_at m)"
  shows "\<exists>out. retry c env w = Some out"
proof -
  define n where "n = (LEAST j. \<not> goes_on env j (timeout_at j))"
  have stop: "\<not> goes_on env n (timeout_at n)"
    unfolding n_def using assms by (rule LeastI)
  have before: "\<And>k. k < n \<Longrightarrow> goes_on env k (timeout_at k)"
    unfolding n_def using not_less_Least by blast
  show ?thesis
  proof (cases "retryableErr (err_of (attempt env n (timeout_at n)))")
    case False
    then show ?thesis using retry_ends_returning [OF before, of n c w] by blast
  next
    case True
    with stop obtain e where "ctx_Err env n = Some e"
      by (auto simp: goes_on_def)
    then show ?thesis using retry_ends_giving_up [OF before True, of e c w] by blast
  qed
qed

text \<open>The shape of every run that returns.\<close>

lemma retry_Some_cases:
  assumes "retry c env w = Some out"
  obtains (returning) n where "\<And>k. k < n \<Longrightarrow> goes_on env k (timeout_at k)"
      and "\<not> retryableErr (err_of (attempt env n (timeout_at n)))"
      and "out = \<lparr>returned = attempt env n (timeout_at n),
                   timeouts = map timeout_at [0..<Suc n],
                   hook = tracef c finished [ADuration (time_Since env n)]
                            (started c (map timeout_at [0..<Suc n]) w)\<rparr>"
  | (giving_up) n e where "\<And>k. k < n \<Longrightarrow> goes_on env k (timeout_at k)"
      and "retryableErr (err_of (attempt env n (timeout_at n)))"
      and "ctx_Err env n = Some e"
      and "out = \<lparr>returned = Inl e, timeouts = map timeout_at [0..<Suc n],
                   hook = tracef c giving_up [] (started c (map timeout_at [0..<Suc n]) w)\<rparr>"
proof -
  from retry_Some [OF assms] obtain n
    where before': "\<forall>k<n. goes_on env k (timeout_at k)"
      and stop: "\<not> goes_on env n (timeout_at n)"
    by blast
  from before' have before: "\<And>k. k < n \<Longrightarrow> goes_on env k (timeout_at k)"
    by simp
  show thesis
  proof (cases "retryableErr (err_of (attempt env n (timeout_at n)))")
    case False
    have "retry c env w =
       Some \<lparr>returned = attempt env n (timeout_at n), timeouts = map timeout_at [0..<Suc n],
             hook = tracef c finished [ADuration (time_Since env n)]
                      (started c (map timeout_at [0..<Suc n]) w)\<rparr>"
      using before False by (rule retry_ends_returning)
    with assms have "out = \<lparr>returned = attempt env n (timeout_at n),
                   timeouts = map timeout_at [0..<Suc n],
                   hook = tracef c finished [ADuration (time_Since env n)]
                            (started c (map timeout_at [0..<Suc n]) w)\<rparr>"
      by simp
    with before False show thesis by (rule returning)
  next
    case True
    with stop obtain e where e: "ctx_Err env n = Some e"
      by (auto simp: goes_on_def)
    have "retry c env w =
       Some \<lparr>returned = Inl e, timeouts = map timeout_at [0..<Suc n],
             hook = tracef c giving_up [] (started c (map timeout_at [0..<Suc n]) w)\<rparr>"
      using before True e by (rule retry_ends_giving_up)
    with assms have "out = \<lparr>returned = Inl e, timeouts = map timeout_at [0..<Suc n],
                   hook = tracef c giving_up [] (started c (map timeout_at [0..<Suc n]) w)\<rparr>"
      by simp
    with before True e show thesis by (rule giving_up)
  qed
qed

lemma retry_None_iff: "(retry c env w = None) = (\<forall>m. goes_on env m (timeout_at m))"
proof
  assume "retry c env w = None"
  then show "\<forall>m. goes_on env m (timeout_at m)"
    using retry_stops [of env _ c w] by fastforce
next
  assume all: "\<forall>m. goes_on env m (timeout_at m)"
  show "retry c env w = None"
  proof (cases "retry c env w")
    case None
    then show ?thesis .
  next
    case (Some out)
    from retry_Some [OF this] obtain n where "\<not> goes_on env n (timeout_at n)"
      by blast
    with all show ?thesis by blast
  qed
qed

lemma retry_observable:
  "observable (retry c env w) = observable (retry c' env w')"
proof (cases "retry c env w")
  case None
  then have "retry c' env w' = None"
    by (simp add: retry_None_iff)
  with None show ?thesis by (simp add: observable_def)
next
  case (Some out)
  then show ?thesis
  proof (cases rule: retry_Some_cases)
    case (returning n)
    have "retry c' env w' =
       Some \<lparr>returned = attempt env n (timeout_at n), timeouts = map timeout_at [0..<Suc n],
             hook = tracef c' finished [ADuration (time_Since env n)]
                      (started c' (map timeout_at [0..<Suc n]) w')\<rparr>"
      using returning(1,2) by (rule retry_ends_returning)
    with Some returning(3) show ?thesis by (simp add: observable_def)
  next
    case (giving_up n e)
    have "retry c' env w' =
       Some \<lparr>returned = Inl e, timeouts = map timeout_at [0..<Suc n],
             hook = tracef c' giving_up [] (started c' (map timeout_at [0..<Suc n]) w')\<rparr>"
      using giving_up(1,2,3) by (rule retry_ends_giving_up)
    with Some giving_up(4) show ?thesis by (simp add: observable_def)
  qed
qed

lemma timeout_at_mono: "i \<le> j \<Longrightarrow> timeout_at i \<le> timeout_at j"
  by (rule lift_Suc_mono_le [of timeout_at]) (simp_all add: timeout_at_mono_step)

lemma timeout_at_values:
  "timeout_at 0 = 100000000" "timeout_at 1 = 150000000" "timeout_at 2 = 225000000"
  "timeout_at 3 = 337500000" "timeout_at 9 = 3844335937" "timeout_at 10 = 5000000000"
  by (simp_all add: timeout_at_closed)

lemma retryable_timed_out: "retryableErr (err_of (Inl timed_out))"
  by (simp add: err_of_def timed_out_def)

section \<open>The claims about the retry loop\<close>

text \<open>
  C1. When the attempts fail retryably and the umbrella context is found expired or
  cancelled after attempt \<open>n\<close> (having been live after the attempts before), \<^verbatim>\<open>retry\<close>
  returns the error that the umbrella context reports, whatever the error of the failed
  attempt was, and the attempts made are the \<open>n + 1\<close> up to that one: none follows.
\<close>

theorem retry_umbrella_error:
  assumes "\<forall>k<n. goes_on env k (timeout_at k)"
    and "retryableErr (err_of (attempt env n (timeout_at n)))"
    and "ctx_Err env n = Some e"
  shows "\<exists>out. retry c env w = Some out \<and> returned out = Inl e
           \<and> timeouts out = map timeout_at [0..<Suc n] \<and> length (timeouts out) = Suc n"
proof -
  have "\<And>k. k < n \<Longrightarrow> goes_on env k (timeout_at k)"
    using assms(1) by simp
  then have "retry c env w =
     Some \<lparr>returned = Inl e, timeouts = map timeout_at [0..<Suc n],
           hook = tracef c giving_up [] (started c (map timeout_at [0..<Suc n]) w)\<rparr>"
    using assms(2,3) by (rule retry_ends_giving_up)
  then show ?thesis by simp
qed

theorem retry_umbrella_error_witness:
  "goes_on (cancelled 2) 0 (timeout_at 0) \<and> goes_on (cancelled 2) 1 (timeout_at 1)
   \<and> retryableErr (err_of (attempt (cancelled 2) 2 (timeout_at 2)))
   \<and> ctx_Err (cancelled 2) 2 = Some Canceled
   \<and> (\<exists>out. retry quiet (cancelled 2) () = Some out \<and> returned out = Inl Canceled
         \<and> timeouts out = [100000000, 150000000, 225000000]
         \<and> length (timeouts out) = 3)"
proof -
  have g0: "goes_on (cancelled 2) 0 (timeout_at 0)"
    and g1: "goes_on (cancelled 2) 1 (timeout_at 1)"
    by (simp_all add: goes_on_def cancelled_def retryable_timed_out)
  have g: "\<forall>k<2. goes_on (cancelled 2) k (timeout_at k)"
    using g0 g1 by (auto dest: less_2_cases)
  have r: "retryableErr (err_of (attempt (cancelled 2) 2 (timeout_at 2)))"
    by (simp add: cancelled_def retryable_timed_out)
  have e: "ctx_Err (cancelled 2) 2 = Some Canceled"
    by (simp add: cancelled_def)
  have u: "map timeout_at [0..<Suc 2] = [100000000, 150000000, 225000000]"
    by (simp add: upt_rec timeout_at_closed)
  have "\<exists>out. retry quiet (cancelled 2) () = Some out \<and> returned out = Inl Canceled
         \<and> timeouts out = [100000000, 150000000, 225000000]
         \<and> length (timeouts out) = 3"
    using retry_umbrella_error [OF g r e, of quiet "()"] by (simp only: u) simp
  with g0 g1 r e show ?thesis by blast
qed

text \<open>
  C4. An attempt that succeeds or fails with an error that is not retryable ends the
  run: its result is what \<^verbatim>\<open>retry\<close> returns, and no attempt follows it. In
  particular a first attempt that fails with a non-retryable error is the only one.
\<close>

theorem retry_returns_at_once:
  "(\<not> retryableErr (err_of (attempt env 0 baseTimeout)) \<longrightarrow>
      (\<exists>out. retry c env w = Some out \<and> returned out = attempt env 0 baseTimeout
         \<and> timeouts out = [baseTimeout]))
   \<and> ((\<forall>k<n. goes_on env k (timeout_at k))
        \<and> \<not> retryableErr (err_of (attempt env n (timeout_at n))) \<longrightarrow>
      (\<exists>out. retry c env w = Some out \<and> returned out = attempt env n (timeout_at n)
         \<and> length (timeouts out) = Suc n))"
proof (intro conjI impI)
  assume "\<not> retryableErr (err_of (attempt env 0 baseTimeout))"
  then have "\<not> retryableErr (err_of (attempt env 0 (timeout_at 0)))"
    by (simp add: timeout_at_def)
  then have "retry c env w =
     Some \<lparr>returned = attempt env 0 (timeout_at 0), timeouts = map timeout_at [0..<Suc 0],
           hook = tracef c finished [ADuration (time_Since env 0)]
                    (started c (map timeout_at [0..<Suc 0]) w)\<rparr>"
    by (intro retry_ends_returning) simp_all
  then show "\<exists>out. retry c env w = Some out \<and> returned out = attempt env 0 baseTimeout
         \<and> timeouts out = [baseTimeout]"
    by (simp add: timeout_at_def)
next
  assume a: "(\<forall>k<n. goes_on env k (timeout_at k))
        \<and> \<not> retryableErr (err_of (attempt env n (timeout_at n)))"
  then have "\<And>k. k < n \<Longrightarrow> goes_on env k (timeout_at k)"
    by simp
  moreover have "\<not> retryableErr (err_of (attempt env n (timeout_at n)))"
    using a by simp
  ultimately have "retry c env w =
     Some \<lparr>returned = attempt env n (timeout_at n), timeouts = map timeout_at [0..<Suc n],
           hook = tracef c finished [ADuration (time_Since env n)]
                    (started c (map timeout_at [0..<Suc n]) w)\<rparr>"
    by (rule retry_ends_returning)
  then show "\<exists>out. retry c env w = Some out \<and> returned out = attempt env n (timeout_at n)
         \<and> length (timeouts out) = Suc n"
    by simp
qed

theorem retry_returns_at_once_witness:
  "\<not> retryableErr (err_of (attempt refused 0 baseTimeout))
   \<and> (\<exists>out. retry quiet refused () = Some out
         \<and> returned out
             = Inl (WrapError ''making HTTP request'' (NetError ''connection refused'' False))
         \<and> timeouts out = [100000000])
   \<and> goes_on (flaky 2) 0 (timeout_at 0) \<and> goes_on (flaky 2) 1 (timeout_at 1)
   \<and> \<not> retryableErr (err_of (attempt (flaky 2) 2 (timeout_at 2)))
   \<and> (\<exists>out. retry quiet (flaky 2) () = Some out \<and> returned out = Inr ''ok''
         \<and> length (timeouts out) = 3)"
proof -
  have r: "\<not> retryableErr (err_of (attempt refused 0 baseTimeout))"
    by (simp add: refused_def err_of_def)
  have g0: "goes_on (flaky 2) 0 (timeout_at 0)"
    and g1: "goes_on (flaky 2) 1 (timeout_at 1)"
    by (simp_all add: goes_on_def flaky_def retryable_timed_out)
  have g: "\<forall>k<2. goes_on (flaky 2) k (timeout_at k)"
    using g0 g1 by (auto dest: less_2_cases)
  have s: "\<not> retryableErr (err_of (attempt (flaky 2) 2 (timeout_at 2)))"
    by (simp add: flaky_def err_of_def)
  have first: "\<exists>out. retry quiet refused () = Some out
         \<and> returned out
             = Inl (WrapError ''making HTTP request'' (NetError ''connection refused'' False))
         \<and> timeouts out = [100000000]"
    using r retry_returns_at_once [of refused quiet "()" 0]
    by (simp add: refused_def baseTimeout_def Millisecond_def)
  have later: "\<exists>out. retry quiet (flaky 2) () = Some out \<and> returned out = Inr ''ok''
         \<and> length (timeouts out) = 3"
    using g s retry_returns_at_once [of "flaky 2" quiet "()" 2]
    by (simp add: flaky_def)
  from r first g0 g1 s later show ?thesis by blast
qed

text \<open>
  C10. \<^verbatim>\<open>retry\<close> calls the operation before it ever reads the umbrella context. A
  run that returns has made at least one attempt, the first with the base timeout; a run
  that does not return has had its first attempt fail retryably. With the umbrella
  context already done when \<^verbatim>\<open>retry\<close> is entered, exactly one attempt is made: its
  result is returned if it is not retryable (a success included), and the error of the
  context only if that attempt failed retryably.
\<close>

theorem retry_first_attempt:
  "(retry c env w = Some out \<longrightarrow> timeouts out \<noteq> [] \<and> hd (timeouts out) = baseTimeout)
   \<and> (retry c env w = None \<longrightarrow> retryableErr (err_of (attempt env 0 baseTimeout)))
   \<and> (ctx_Err env 0 = Some e \<longrightarrow>
        (\<exists>out'. retry c env w = Some out' \<and> timeouts out' = [baseTimeout]
           \<and> returned out' = (if retryableErr (err_of (attempt env 0 baseTimeout))
                               then Inl e else attempt env 0 baseTimeout)))"
proof (intro conjI impI)
  assume "retry c env w = Some out"
  then have "\<exists>n. timeouts out = map timeout_at [0..<Suc n]"
    by (cases rule: retry_Some_cases) auto
  then obtain n where "timeouts out = map timeout_at [0..<Suc n]" ..
  then have "timeouts out = timeout_at 0 # map timeout_at [Suc 0..<Suc n]"
    by (simp add: upt_conv_Cons del: upt_Suc)
  then show "timeouts out \<noteq> []" "hd (timeouts out) = baseTimeout"
    by (simp_all add: timeout_at_def)
next
  assume "retry c env w = None"
  then have "goes_on env 0 (timeout_at 0)"
    by (simp add: retry_None_iff)
  then show "retryableErr (err_of (attempt env 0 baseTimeout))"
    by (simp add: goes_on_def timeout_at_def)
next
  assume e: "ctx_Err env 0 = Some e"
  have none: "\<And>k. k < (0::nat) \<Longrightarrow> goes_on env k (timeout_at k)"
    by simp
  show "\<exists>out'. retry c env w = Some out' \<and> timeouts out' = [baseTimeout]
           \<and> returned out' = (if retryableErr (err_of (attempt env 0 baseTimeout))
                               then Inl e else attempt env 0 baseTimeout)"
  proof (cases "retryableErr (err_of (attempt env 0 (timeout_at 0)))")
    case True
    from retry_ends_giving_up [OF none True e, of c w] True
    show ?thesis by (simp add: timeout_at_def)
  next
    case False
    from retry_ends_returning [OF none False, of c w] False
    show ?thesis by (simp add: timeout_at_def)
  qed
qed

theorem retry_first_attempt_witness:
  "ctx_Err late 0 = Some Canceled
   \<and> (\<exists>out'. retry quiet late () = Some out' \<and> timeouts out' = [100000000]
         \<and> returned out' = Inr ''ok'')
   \<and> ctx_Err expired 0 = Some DeadlineExceeded
   \<and> (\<exists>out'. retry quiet expired () = Some out' \<and> timeouts out' = [100000000]
         \<and> returned out' = Inl DeadlineExceeded)
   \<and> retry quiet stuck () = None
   \<and> retryableErr (err_of (attempt stuck 0 baseTimeout))"
proof -
  have n: "retry quiet stuck () = None"
    by (simp add: retry_None_iff goes_on_def stuck_def retryable_timed_out)
  have n': "retryableErr (err_of (attempt stuck 0 baseTimeout))"
    using n retry_first_attempt [of quiet stuck "()"] by simp
  have l: "ctx_Err late 0 = Some Canceled"
    by (simp add: late_def)
  have x: "ctx_Err expired 0 = Some DeadlineExceeded"
    by (simp add: expired_def)
  have "\<exists>out'. retry quiet late () = Some out' \<and> timeouts out' = [100000000]
         \<and> returned out' = Inr ''ok''"
    using l retry_first_attempt [of quiet late "()" _ Canceled]
    by (simp add: late_def err_of_def baseTimeout_def Millisecond_def)
  moreover have "\<exists>out'. retry quiet expired () = Some out' \<and> timeouts out' = [100000000]
         \<and> returned out' = Inl DeadlineExceeded"
    using x retry_first_attempt [of quiet expired "()" _ DeadlineExceeded]
    by (simp add: expired_def retryable_timed_out baseTimeout_def Millisecond_def)
  ultimately show ?thesis using l x n n' by blast
qed

text \<open>
  C2, as the code has it. The timeout of attempt \<open>k\<close> is \<open>timeout_at k\<close> in every run
  that reaches that attempt. The sequence starts at 100 ms, never decreases, stays at or
  below 5 s, and is \<open>min (100 ms * 1.5^k) 5 s\<close> with the product truncated to whole
  nanoseconds (a \<^verbatim>\<open>time.Duration\<close> is an integer). The timeouts of a run that
  returns are the first values of the sequence. After \<open>n\<close> retryable failures, each
  found with the umbrella context still live, a success on attempt \<open>n\<close> is what
  \<^verbatim>\<open>retry\<close> returns.
\<close>

theorem retry_timeouts:
  "timeout_at 0 = 100 * Millisecond
   \<and> (i \<le> j \<longrightarrow> timeout_at i \<le> timeout_at j)
   \<and> timeout_at k \<le> 5 * Second
   \<and> timeout_at k = min \<lfloor>of_int baseTimeout * backoffMult ^ k\<rfloor> maxTimeout
   \<and> ((\<forall>k<n. goes_on env k (timeout_at k)) \<longrightarrow>
        retry c env w = retry_loop c env n (timeout_at n) (map timeout_at [0..<n])
                          (started c (map timeout_at [0..<n]) w))
   \<and> (retry c env w = Some out \<longrightarrow>
        timeouts out = map timeout_at [0..<length (timeouts out)])
   \<and> ((\<forall>k<n. goes_on env k (timeout_at k)) \<and> attempt env n (timeout_at n) = Inr v \<longrightarrow>
        (\<exists>out'. retry c env w = Some out' \<and> returned out' = Inr v
           \<and> timeouts out' = map timeout_at [0..<Suc n]))"
proof (intro conjI impI)
  show "timeout_at 0 = 100 * Millisecond"
    by (simp add: timeout_at_def baseTimeout_def)
next
  assume "i \<le> j"
  then show "timeout_at i \<le> timeout_at j" by (rule timeout_at_mono)
next
  show "timeout_at k \<le> 5 * Second"
    using timeout_at_range [of k] by (simp add: maxTimeout_def)
next
  show "timeout_at k = min \<lfloor>of_int baseTimeout * backoffMult ^ k\<rfloor> maxTimeout"
    by (simp only: floor_scaled timeout_at_closed) (simp add: maxTimeout_def Second_def)
next
  assume "\<forall>k<n. goes_on env k (timeout_at k)"
  then have "\<And>k. k < n \<Longrightarrow> goes_on env k (timeout_at k)" by simp
  then show "retry c env w = retry_loop c env n (timeout_at n) (map timeout_at [0..<n])
                          (started c (map timeout_at [0..<n]) w)"
    by (rule retry_reaches)
next
  assume "retry c env w = Some out"
  then have "\<exists>n. timeouts out = map timeout_at [0..<Suc n]"
    by (cases rule: retry_Some_cases) auto
  then obtain m where m: "timeouts out = map timeout_at [0..<Suc m]" ..
  then have "length (timeouts out) = Suc m" by simp
  with m show "timeouts out = map timeout_at [0..<length (timeouts out)]" by simp
next
  assume a: "(\<forall>k<n. goes_on env k (timeout_at k)) \<and> attempt env n (timeout_at n) = Inr v"
  then have "\<And>k. k < n \<Longrightarrow> goes_on env k (timeout_at k)" by simp
  moreover have "\<not> retryableErr (err_of (attempt env n (timeout_at n)))"
    using a by (simp add: err_of_def)
  ultimately have "retry c env w =
     Some \<lparr>returned = attempt env n (timeout_at n), timeouts = map timeout_at [0..<Suc n],
           hook = tracef c finished [ADuration (time_Since env n)]
                    (started c (map timeout_at [0..<Suc n]) w)\<rparr>"
    by (rule retry_ends_returning)
  with a show "\<exists>out'. retry c env w = Some out' \<and> returned out' = Inr v
           \<and> timeouts out' = map timeout_at [0..<Suc n]"
    by simp
qed

theorem retry_timeouts_witness:
  "goes_on (flaky 2) 0 (timeout_at 0) \<and> goes_on (flaky 2) 1 (timeout_at 1)
   \<and> attempt (flaky 2) 2 (timeout_at 2) = Inr ''ok''
   \<and> (\<exists>out'. retry quiet (flaky 2) () = Some out' \<and> returned out' = Inr ''ok''
         \<and> timeouts out' = [100000000, 150000000, 225000000])
   \<and> timeout_at 2 \<le> timeout_at 3"
proof -
  have g0: "goes_on (flaky 2) 0 (timeout_at 0)"
    and g1: "goes_on (flaky 2) 1 (timeout_at 1)"
    by (simp_all add: goes_on_def flaky_def retryable_timed_out)
  have g: "\<forall>k<2. goes_on (flaky 2) k (timeout_at k)"
    using g0 g1 by (auto dest: less_2_cases)
  have s: "attempt (flaky 2) 2 (timeout_at 2) = Inr ''ok''"
    by (simp add: flaky_def)
  have u: "map timeout_at [0..<Suc 2] = [100000000, 150000000, 225000000]"
    by (simp add: upt_rec timeout_at_closed)
  have "\<exists>out'. retry quiet (flaky 2) () = Some out' \<and> returned out' = Inr ''ok''
         \<and> timeouts out' = map timeout_at [0..<Suc 2]"
    using g s retry_timeouts [of 2 3 0 2 "flaky 2" quiet "()" _ "''ok''"] by blast
  then have r: "\<exists>out'. retry quiet (flaky 2) () = Some out' \<and> returned out' = Inr ''ok''
         \<and> timeouts out' = [100000000, 150000000, 225000000]"
    by (simp only: u)
  have "timeout_at 2 \<le> timeout_at 3"
    using retry_timeouts [of 2 3 0 2 "flaky 2" quiet "()" _ "''ok''"] by simp
  with g0 g1 s r show ?thesis by blast
qed

text \<open>
  The claim as written fails at attempt 9: in a run whose first nine attempts time out
  it is made with a timeout of 3844335937 ns, while \<open>min (100 ms * 1.5^9) 5 s\<close> is
  3844335937.5 ns.
\<close>

theorem retry_timeouts_counterexample:
  "map_option (\<lambda>out. timeouts out ! 9) (retry quiet (flaky 9) ()) = Some 3844335937
   \<and> (3844335937 :: rat) \<noteq> min (of_int baseTimeout * backoffMult ^ 9) (of_int maxTimeout)"
proof -
  have "\<And>k. k < 9 \<Longrightarrow> goes_on (flaky 9) k (timeout_at k)"
    by (simp add: goes_on_def flaky_def retryable_timed_out)
  moreover have "\<not> retryableErr (err_of (attempt (flaky 9) 9 (timeout_at 9)))"
    by (simp add: flaky_def err_of_def)
  ultimately have "retry quiet (flaky 9) () =
     Some \<lparr>returned = attempt (flaky 9) 9 (timeout_at 9), timeouts = map timeout_at [0..<Suc 9],
           hook = tracef quiet finished [ADuration (time_Since (flaky 9) 9)]
                    (started quiet (map timeout_at [0..<Suc 9]) ())\<rparr>"
    by (rule retry_ends_returning)
  then have a: "map_option (\<lambda>out. timeouts out ! 9) (retry quiet (flaky 9) ()) = Some 3844335937"
    by (simp add: nth_append timeout_at_values del: upt_Suc)
  have b: "(3844335937 :: rat) \<noteq> min (of_int baseTimeout * backoffMult ^ 9) (of_int maxTimeout)"
    by (simp add: baseTimeout_def backoffMult_def maxTimeout_def Millisecond_def Second_def
                  power_divide)
  from a b show ?thesis by blast
qed

text \<open>
  Why the success clause needs a live umbrella context: a first attempt that times out
  under a context that is already done is the last one, although a second attempt would
  succeed.
\<close>

lemma retry_expired:
  "retryableErr (err_of (attempt expired 0 (timeout_at 0)))
   \<and> attempt expired 1 (timeout_at 1) = Inr ''ok''
   \<and> observable (retry quiet expired ()) = Some (Inl DeadlineExceeded, [100000000])"
proof -
  have c: "retryableErr (err_of (attempt expired 0 (timeout_at 0)))"
    by (simp add: expired_def retryable_timed_out)
  have d: "attempt expired 1 (timeout_at 1) = Inr ''ok''"
    by (simp add: expired_def)
  have none: "\<And>k. k < (0::nat) \<Longrightarrow> goes_on expired k (timeout_at k)"
    by simp
  have x: "ctx_Err expired 0 = Some DeadlineExceeded"
    by (simp add: expired_def)
  have e: "observable (retry quiet expired ()) = Some (Inl DeadlineExceeded, [100000000])"
    using retry_ends_giving_up [OF none c x, of quiet "()"]
    by (simp add: observable_def timeout_at_values)
  from c d e show ?thesis by blast
qed

section \<open>The trace hook\<close>

lemma tracef_recorder:
  "Tracef c = Some recorder \<Longrightarrow> tracef c format args ls = ls @ [(format, args)]"
  by (simp add: tracef_def recorder_def)

lemma started_recorder:
  "Tracef c = Some recorder \<Longrightarrow>
   started c ts ls = ls @ map (\<lambda>t. (starting, [ADuration t])) ts"
  unfolding started_def
  by (induction ts arbitrary: ls) (simp_all add: tracef_recorder)

lemma tracef_absent: "Tracef c = None \<Longrightarrow> tracef c format args w = w"
  by (simp add: tracef_def)

lemma started_absent: "Tracef c = None \<Longrightarrow> started c ts w = w"
  unfolding started_def
  by (induction ts arbitrary: w) (simp_all add: tracef_absent)

text \<open>
  C5, as the code has it. In a run of \<^verbatim>\<open>retry\<close> that returns, the hook is invoked
  once at the start of every attempt, with the timeout of that attempt, and once at the
  end of the run: with the time since the start of the last attempt when that attempt
  was not retryable, and with no duration when the run gives up.
\<close>

theorem retry_trace_lines:
  assumes "Tracef c = Some recorder"
    and "retry c env [] = Some out"
  shows "\<exists>n. length (timeouts out) = Suc n
           \<and> hook out = map (\<lambda>t. (starting, [ADuration t])) (timeouts out)
               @ [if retryableErr (err_of (attempt env n (timeout_at n)))
                  then (giving_up, [])
                  else (finished, [ADuration (time_Since env n)])]"
  using assms(2)
proof (cases rule: retry_Some_cases)
  case (returning n)
  have "length (timeouts out) = Suc n
           \<and> hook out = map (\<lambda>t. (starting, [ADuration t])) (timeouts out)
               @ [if retryableErr (err_of (attempt env n (timeout_at n)))
                  then (giving_up, [])
                  else (finished, [ADuration (time_Since env n)])]"
    using returning(2,3) assms(1)
    by (simp add: tracef_recorder started_recorder)
  then show ?thesis ..
next
  case (giving_up n e)
  have "length (timeouts out) = Suc n
           \<and> hook out = map (\<lambda>t. (starting, [ADuration t])) (timeouts out)
               @ [if retryableErr (err_of (attempt env n (timeout_at n)))
                  then (giving_up, [])
                  else (finished, [ADuration (time_Since env n)])]"
    using giving_up(2,4) assms(1)
    by (simp add: tracef_recorder started_recorder)
  then show ?thesis ..
qed

lemma retry_traced_flaky:
  "retry traced (flaky 2) [] =
     Some \<lparr>returned = Inr ''ok'', timeouts = [100000000, 150000000, 225000000],
           hook = [(starting, [ADuration 100000000]), (starting, [ADuration 150000000]),
                   (starting, [ADuration 225000000]), (finished, [ADuration 42000000])]\<rparr>"
proof -
  have t: "Tracef traced = Some recorder"
    by (simp add: traced_def)
  have "\<And>k. k < 2 \<Longrightarrow> goes_on (flaky 2) k (timeout_at k)"
    by (simp add: goes_on_def flaky_def retryable_timed_out)
  moreover have "\<not> retryableErr (err_of (attempt (flaky 2) 2 (timeout_at 2)))"
    by (simp add: flaky_def err_of_def)
  ultimately have r: "retry traced (flaky 2) [] =
     Some \<lparr>returned = attempt (flaky 2) 2 (timeout_at 2), timeouts = map timeout_at [0..<Suc 2],
           hook = tracef traced finished [ADuration (time_Since (flaky 2) 2)]
                    (started traced (map timeout_at [0..<Suc 2]) [])\<rparr>"
    by (rule retry_ends_returning)
  have u: "map timeout_at [0..<Suc 2] = [100000000, 150000000, 225000000]"
    by (simp add: upt_rec timeout_at_closed)
  show ?thesis
    unfolding r u
    by (simp add: tracef_recorder [OF t] started_recorder [OF t] flaky_def Millisecond_def)
qed

theorem retry_trace_lines_witness:
  "Tracef traced = Some recorder
   \<and> (\<exists>out. retry traced (flaky 2) [] = Some out
         \<and> length (timeouts out) = Suc 2
         \<and> hook out = map (\<lambda>t. (starting, [ADuration t])) (timeouts out)
               @ [(finished, [ADuration (time_Since (flaky 2) 2)])])"
proof -
  have t: "Tracef traced = Some recorder"
    by (simp add: traced_def)
  obtain out where out: "retry traced (flaky 2) [] = Some out" and l: "length (timeouts out) = 3"
    using retry_traced_flaky by simp
  from retry_trace_lines [OF t out] obtain n where n: "length (timeouts out) = Suc n"
    and h: "hook out = map (\<lambda>t. (starting, [ADuration t])) (timeouts out)
               @ [if retryableErr (err_of (attempt (flaky 2) n (timeout_at n)))
                  then (giving_up, [])
                  else (finished, [ADuration (time_Since (flaky 2) n)])]"
    by blast
  from n l have "n = 2" by simp
  with h have "hook out = map (\<lambda>t. (starting, [ADuration t])) (timeouts out)
               @ [(finished, [ADuration (time_Since (flaky 2) 2)])]"
    by (simp add: flaky_def err_of_def)
  with t out l show ?thesis by simp
qed

text \<open>
  The claim as written fails on a run of three attempts (two time out, the third
  succeeds after 42 ms): the hook gets a start line for each attempt, three and not one,
  and the closing line carries the 42 ms of the last attempt.
\<close>

theorem retry_trace_lines_counterexample:
  "map_option hook (retry traced (flaky 2) []) =
     Some [(''Nanoleaf operation starting with timeout %v'', [ADuration 100000000]),
           (''Nanoleaf operation starting with timeout %v'', [ADuration 150000000]),
           (''Nanoleaf operation starting with timeout %v'', [ADuration 225000000]),
           (''Nanoleaf operation finished after %v'', [ADuration 42000000])]
   \<and> map_option (\<lambda>out. length (filter (\<lambda>l. fst l = starting) (hook out)))
        (retry traced (flaky 2) []) = Some 3"
  by (simp add: retry_traced_flaky) (simp add: starting_def finished_def)

section \<open>The request body of SetBrightness\<close>

lemma quot_Second: "0 \<le> dur \<Longrightarrow> quot dur Second = dur div Second"
  by (simp add: quot_def Second_def)

lemma whole_seconds_zero: "0 \<le> dur \<Longrightarrow> (dur div Second = 0) = (dur < Second)"
  by (auto simp: Second_def zdiv_eq_0_iff)

text \<open>
  C6, as the code has it. The body of a Set-brightness request has the duration field
  exactly when the duration is at least one second; the field then holds the whole
  seconds of the duration (1500 ms gives 1). A negative duration and a duration of less
  than one second (0 included) both leave the field out: it is tagged
  \<^verbatim>\<open>omitempty\<close> and would be 0.
\<close>

theorem SetBrightness_body:
  "encode (SetBrightness_req v dur) =
     (if Second \<le> dur
      then ''{\"brightness\":{\"value\":'' @ show_int v
             @ '',\"duration\":'' @ show_int (dur div Second) @ ''}}''
      else ''{\"brightness\":{\"value\":'' @ show_int v @ ''}}'')
   \<and> encode (SetBrightness_req 50 (1500 * Millisecond))
       = ''{\"brightness\":{\"value\":50,\"duration\":1}}''
   \<and> encode (SetBrightness_req 50 (- 1 * Second)) = ''{\"brightness\":{\"value\":50}}''
   \<and> SetBrightness c h v dur w = put c h ''/state'' (SetBrightness_req v dur) w"
proof -
  have gen: "encode (SetBrightness_req v' d) =
     (if Second \<le> d
      then ''{\"brightness\":{\"value\":'' @ show_int v'
             @ '',\"duration\":'' @ show_int (d div Second) @ ''}}''
      else ''{\"brightness\":{\"value\":'' @ show_int v' @ ''}}'')" for v' d
  proof (cases "0 \<le> d")
    case False
    then have "\<not> Second \<le> d" by (simp add: Second_def)
    with False show ?thesis
      by (simp add: SetBrightness_req_def)
  next
    case True
    show ?thesis
    proof (cases "Second \<le> d")
      case False
      with True have "d div Second = 0"
        by (simp add: whole_seconds_zero)
      with True False show ?thesis
        by (simp add: SetBrightness_req_def quot_Second)
    next
      case True
      with \<open>0 \<le> d\<close> have "d div Second \<noteq> 0"
        by (simp add: whole_seconds_zero)
      with True \<open>0 \<le> d\<close> show ?thesis
        by (simp add: SetBrightness_req_def quot_Second)
    qed
  qed
  have fifty: "show_int 50 = ''50''" and one: "show_int 1 = ''1''"
    by (simp_all add: show_int_def digit_def)
  have a: "encode (SetBrightness_req 50 (1500 * Millisecond))
       = ''{\"brightness\":{\"value\":50,\"duration\":1}}''"
    unfolding gen by (simp add: Millisecond_def Second_def fifty one)
  have b: "encode (SetBrightness_req 50 (- 1 * Second)) = ''{\"brightness\":{\"value\":50}}''"
    unfolding gen by (simp add: Second_def fifty)
  from gen [of v dur] a b show ?thesis
    by (simp only: SetBrightness_def)
qed

text \<open>
  The claim as written fails for a duration of zero and for half a second: both are
  non-negative, and the body has no duration field.
\<close>

theorem SetBrightness_body_counterexample:
  "(0 :: duration) \<ge> 0
   \<and> encode (SetBrightness_req 50 0) = ''{\"brightness\":{\"value\":50}}''
   \<and> 500 * Millisecond \<ge> 0
   \<and> encode (SetBrightness_req 50 (500 * Millisecond)) = ''{\"brightness\":{\"value\":50}}''"
  by (simp add: SetBrightness_req_def quot_def Millisecond_def Second_def show_int_def
                digit_def)

section \<open>GET exchanges\<close>

lemma get_after_retry:
  assumes "retry c (get_world c h path)
             (tracef c ''Nanoleaf GET to %s'' [AString (api c ''<tok>'' path)] w) = Some out"
    and "returned out = Inr resp"
  shows "get c h Unmarshal path w =
     Some (if 300 \<le> StatusCode resp then
             \<lparr>got = Inl (ErrorString (''HTTP response '' @ Status resp)),
              get_requests = sent c h ''GET'' path None (timeouts out),
              unmarshalled = [], get_hook = hook out\<rparr>
           else case snd (ReadAll resp) of
             Some e \<Rightarrow>
               \<lparr>got = Inl (WrapError ''reading HTTP response body'' e),
                get_requests = sent c h ''GET'' path None (timeouts out),
                unmarshalled = [], get_hook = hook out\<rparr>
           | None \<Rightarrow>
               \<lparr>got = (case Unmarshal (fst (ReadAll resp)) of
                         Inl msg \<Rightarrow> Inl (JSONError msg) | Inr d \<Rightarrow> Inr d),
                get_requests = sent c h ''GET'' path None (timeouts out),
                unmarshalled = [fst (ReadAll resp)], get_hook = hook out\<rparr>)"
  using assms
  by (simp add: get_def Let_def split: prod.splits option.splits)

text \<open>
  C7. Whenever the exchange of a GET ends with a response, the body is given to the
  JSON decoder only if the status is below 300 (and the body was read). A status of 300
  or more gives the error \<open>HTTP response\<close> followed by the status text, with no call of
  the decoder, whatever the body and the decoder are. The error of a failed decoding is
  a JSON error, never that status error.
\<close>

theorem get_decodes_below_300:
  assumes "\<forall>k<n. goes_on (get_world c h path) k (timeout_at k)"
    and "get_op c h path n (timeout_at n) = Inr resp"
  shows "\<exists>res. get c h Unmarshal path w = Some res
     \<and> (if 300 \<le> StatusCode resp
         then got res = Inl (ErrorString (''HTTP response '' @ Status resp))
              \<and> unmarshalled res = []
         else case snd (ReadAll resp) of
                Some e \<Rightarrow> got res = Inl (WrapError ''reading HTTP response body'' e)
                           \<and> unmarshalled res = []
              | None \<Rightarrow> unmarshalled res = [fst (ReadAll resp)]
                         \<and> got res = (case Unmarshal (fst (ReadAll resp)) of
                                        Inl msg \<Rightarrow> Inl (JSONError msg) | Inr d \<Rightarrow> Inr d))
     \<and> (unmarshalled res \<noteq> [] \<longrightarrow> StatusCode resp < 300)
     \<and> (\<forall>msg. got res = Inl (JSONError msg) \<longrightarrow>
            StatusCode resp < 300 \<and> unmarshalled res = [fst (ReadAll resp)]
            \<and> JSONError msg \<noteq> ErrorString (''HTTP response '' @ Status resp))"
proof -
  let ?w0 = "tracef c ''Nanoleaf GET to %s'' [AString (api c ''<tok>'' path)] w"
  have before: "\<And>k. k < n \<Longrightarrow> goes_on (get_world c h path) k (timeout_at k)"
    using assms(1) by simp
  have last: "attempt (get_world c h path) n (timeout_at n) = Inr resp"
    using assms(2) by (simp add: get_world_def)
  then have "\<not> retryableErr (err_of (attempt (get_world c h path) n (timeout_at n)))"
    by (simp add: err_of_def)
  with before have "retry c (get_world c h path) ?w0 =
     Some \<lparr>returned = attempt (get_world c h path) n (timeout_at n),
           timeouts = map timeout_at [0..<Suc n],
           hook = tracef c finished [ADuration (time_Since (get_world c h path) n)]
                    (started c (map timeout_at [0..<Suc n]) ?w0)\<rparr>"
    by (rule retry_ends_returning)
  then obtain out where out: "retry c (get_world c h path) ?w0 = Some out"
    and ret: "returned out = Inr resp"
    using last by simp
  show ?thesis
    unfolding get_after_retry [OF out ret]
    by (auto split: option.splits sum.splits)
qed

theorem get_decodes_below_300_witness:
  "get_op quiet failing ''/'' 0 (timeout_at 0)
     = Inr \<lparr>StatusCode = 500, Status = ''500 Internal Server Error'',
            ReadAll = (''{\"name\":\"Left Panel\"}'', None)\<rparr>
   \<and> (\<exists>res. get quiet failing name_of ''/'' () = Some res
         \<and> got res = Inl (ErrorString ''HTTP response 500 Internal Server Error'')
         \<and> unmarshalled res = [])
   \<and> get_op quiet serving ''/'' 0 (timeout_at 0)
     = Inr \<lparr>StatusCode = 200, Status = ''200 OK'',
            ReadAll = (''{\"name\":\"Left Panel\"}'', None)\<rparr>
   \<and> (\<exists>res. get quiet serving name_of ''/'' () = Some res
         \<and> got res = Inr ''Left Panel''
         \<and> unmarshalled res = [''{\"name\":\"Left Panel\"}''])
   \<and> get_op quiet garbled ''/'' 0 (timeout_at 0)
     = Inr \<lparr>StatusCode = 200, Status = ''200 OK'', ReadAll = (''<html>'', None)\<rparr>
   \<and> (\<exists>res. get quiet garbled name_of ''/'' () = Some res
         \<and> got res = Inl (JSONError ''unexpected end of JSON input'')
         \<and> unmarshalled res = [''<html>''])"
proof -
  have none: "\<forall>k<0. goes_on (get_world quiet h ''/'') k (timeout_at k)" for h
    by simp
  have f: "get_op quiet failing ''/'' 0 (timeout_at 0)
     = Inr \<lparr>StatusCode = 500, Status = ''500 Internal Server Error'',
            ReadAll = (''{\"name\":\"Left Panel\"}'', None)\<rparr>"
    by (simp add: get_op_def failing_def answering_def)
  have s: "get_op quiet serving ''/'' 0 (timeout_at 0)
     = Inr \<lparr>StatusCode = 200, Status = ''200 OK'',
            ReadAll = (''{\"name\":\"Left Panel\"}'', None)\<rparr>"
    by (simp add: get_op_def serving_def answering_def)
  have "\<exists>res. get quiet failing name_of ''/'' () = Some res
         \<and> got res = Inl (ErrorString ''HTTP response 500 Internal Server Error'')
         \<and> unmarshalled res = []"
    using get_decodes_below_300 [OF none f, of name_of "()"] by simp blast
  moreover have "\<exists>res. get quiet serving name_of ''/'' () = Some res
         \<and> got res = Inr ''Left Panel''
         \<and> unmarshalled res = [''{\"name\":\"Left Panel\"}'']"
    using get_decodes_below_300 [OF none s, of name_of "()"]
    by (simp add: name_of_def) blast
  moreover have g: "get_op quiet garbled ''/'' 0 (timeout_at 0)
     = Inr \<lparr>StatusCode = 200, Status = ''200 OK'', ReadAll = (''<html>'', None)\<rparr>"
    by (simp add: get_op_def garbled_def answering_def)
  moreover have "\<exists>res. get quiet garbled name_of ''/'' () = Some res
         \<and> got res = Inl (JSONError ''unexpected end of JSON input'')
         \<and> unmarshalled res = [''<html>'']"
    using get_decodes_below_300 [OF none g, of name_of "()"]
    by (simp add: name_of_def) blast
  ultimately show ?thesis using f s by blast
qed

section \<open>Transport timeouts in GET and PUT\<close>

text \<open>
  The function literals of \<^verbatim>\<open>get\<close> and \<^verbatim>\<open>put\<close> wrap every error with
  \<^verbatim>\<open>fmt.Errorf\<close>, so no error that they return passes the type assertion of
  \<^verbatim>\<open>retryableErr\<close>: in these exchanges an error is retried only for a deadline error on
  its chain.
\<close>

lemma get_op_error: "get_op c h path k t = Inl err \<Longrightarrow> net_Error_Timeout err = None"
  by (auto simp: get_op_def split: option.splits sum.splits)

lemma put_op_error: "put_op c h path bytes k t = Inl err \<Longrightarrow> net_Error_Timeout err = None"
  by (auto simp: put_op_def split: option.splits sum.splits)

lemma get_dropping:
  "retry quiet (get_world quiet dropping ''/'') w =
     Some \<lparr>returned = Inl wrapped_timeout, timeouts = [100000000], hook = w\<rparr>"
proof -
  let ?env = "get_world quiet dropping ''/''"
  have a: "attempt ?env 0 (timeout_at 0) = Inl wrapped_timeout"
    by (simp add: get_world_def get_op_def dropping_def wrapped_timeout_def)
  have "\<not> retryableErr (err_of (attempt ?env 0 (timeout_at 0)))"
    unfolding a by (simp add: err_of_def wrapped_timeout_def connect_timeout_def)
  moreover have "\<And>k. k < (0::nat) \<Longrightarrow> goes_on ?env k (timeout_at k)"
    by simp
  ultimately have "retry quiet ?env w =
     Some \<lparr>returned = attempt ?env 0 (timeout_at 0), timeouts = map timeout_at [0..<Suc 0],
           hook = tracef quiet finished [ADuration (time_Since ?env 0)]
                    (started quiet (map timeout_at [0..<Suc 0]) w)\<rparr>"
    by (intro retry_ends_returning)
  moreover have "Tracef quiet = None"
    by (simp add: quiet_def Connect_def)
  ultimately show ?thesis
    using a by (simp add: tracef_absent started_absent timeout_at_values)
qed

text \<open>
  C3. The claim: \<^verbatim>\<open>retryableErr\<close> returns true exactly for an error that stands for
  an exceeded sub-deadline or for a transport timeout reported by the underlying network
  error. The code, at the error that \<^verbatim>\<open>get\<close> makes of a connection timeout of the
  transport: the error is a timeout as the claim has it, and the network error inside it
  is retryable when given bare, but \<^verbatim>\<open>retryableErr\<close> returns false for it. So a GET
  whose first attempt ends in that timeout, and whose second attempt would be answered
  with 200, returns the error after the one request.
\<close>

theorem retryableErr_wrapped_timeout:
  "spec_retryable (Some wrapped_timeout)
   \<and> \<not> retryableErr (Some wrapped_timeout)
   \<and> retryableErr (Some connect_timeout)
   \<and> get_op quiet dropping ''/'' 0 baseTimeout = Inl wrapped_timeout
   \<and> get_op quiet dropping ''/'' 1 (next_timeout baseTimeout)
       = Inr \<lparr>StatusCode = 200, Status = ''200 OK'',
              ReadAll = (''{\"name\":\"Left Panel\"}'', None)\<rparr>
   \<and> get_observable (get quiet dropping name_of ''/'' ())
       = Some (Inl wrapped_timeout,
               [\<lparr>req_method = ''GET'',
                 req_url = ''http://192.168.1.20:16021/api/v1/token/'',
                 req_body = None, req_Close = True, req_timeout = 100000000\<rparr>],
               [])"
proof -
  have a: "spec_retryable (Some wrapped_timeout)"
    by (simp add: spec_retryable_def transport_timeout_def wrapped_timeout_def
                  connect_timeout_def)
  have b: "\<not> retryableErr (Some wrapped_timeout)"
    by (simp add: wrapped_timeout_def connect_timeout_def)
  have c: "retryableErr (Some connect_timeout)"
    by (simp add: connect_timeout_def)
  have d: "get_op quiet dropping ''/'' 0 baseTimeout = Inl wrapped_timeout"
    by (simp add: get_op_def dropping_def wrapped_timeout_def)
  have e: "get_op quiet dropping ''/'' 1 (next_timeout baseTimeout)
       = Inr \<lparr>StatusCode = 200, Status = ''200 OK'',
              ReadAll = (''{\"name\":\"Left Panel\"}'', None)\<rparr>"
    by (simp add: get_op_def dropping_def)
  have f: "get_observable (get quiet dropping name_of ''/'' ())
       = Some (Inl wrapped_timeout,
               [\<lparr>req_method = ''GET'',
                 req_url = ''http://192.168.1.20:16021/api/v1/token/'',
                 req_body = None, req_Close = True, req_timeout = 100000000\<rparr>],
               [])"
    by (simp add: get_def get_dropping get_observable_def sent_def)
       (simp add: dropping_def api_def quiet_def Connect_def)
  from a b c d e f show ?thesis by blast
qed

section \<open>PUT exchanges\<close>

lemma put_after_retry:
  assumes "retry c (put_world c h path (encode obj))
             (tracef c ''Nanoleaf PUT to %s'' [AString (api c ''<tok>'' path)] w) = Some out"
  shows "put c h path obj w =
     Some \<lparr>put_err = (case returned out of
                         Inl err \<Rightarrow> Some err
                       | Inr resp \<Rightarrow>
                           if 300 \<le> StatusCode resp
                           then Some (ErrorString (''HTTP response '' @ Status resp))
                           else None),
           put_requests = sent c h ''PUT'' path (Some (encode obj)) (timeouts out),
           put_hook = hook out\<rparr>"
  using assms
  by (simp add: put_def json_Marshal_def Let_def split: sum.splits)

lemma put_first_answer:
  assumes "NewRequestWithContext h ''PUT'' (api c (authToken c) path) = None"
    and "Do h 0 \<lparr>req_method = ''PUT'', req_url = api c (authToken c) path,
                  req_body = Some (encode obj), req_Close = True,
                  req_timeout = baseTimeout\<rparr> = Inr resp"
  shows "\<exists>res. put c h path obj w = Some res
     \<and> put_requests res = [\<lparr>req_method = ''PUT'', req_url = api c (authToken c) path,
                             req_body = Some (encode obj), req_Close = True,
                             req_timeout = baseTimeout\<rparr>]
     \<and> (put_err res = None) = (StatusCode resp < 300)"
proof -
  let ?w0 = "tracef c ''Nanoleaf PUT to %s'' [AString (api c ''<tok>'' path)] w"
  let ?env = "put_world c h path (encode obj)"
  have t0: "timeout_at 0 = baseTimeout"
    by (simp add: timeout_at_def)
  have a0: "attempt ?env 0 baseTimeout = Inr resp"
    using assms by (simp add: put_world_def put_op_def)
  then have a: "attempt ?env 0 (timeout_at 0) = Inr resp"
    by (simp add: t0)
  then have "\<not> retryableErr (err_of (attempt ?env 0 (timeout_at 0)))"
    by (simp add: err_of_def)
  moreover have "\<And>k. k < (0::nat) \<Longrightarrow> goes_on ?env k (timeout_at k)"
    by simp
  ultimately have "retry c ?env ?w0 =
     Some \<lparr>returned = attempt ?env 0 (timeout_at 0), timeouts = map timeout_at [0..<Suc 0],
           hook = tracef c finished [ADuration (time_Since ?env 0)]
                    (started c (map timeout_at [0..<Suc 0]) ?w0)\<rparr>"
    by (intro retry_ends_returning)
  then have "put c h path obj w =
     Some \<lparr>put_err = (if 300 \<le> StatusCode resp
                       then Some (ErrorString (''HTTP response '' @ Status resp)) else None),
           put_requests = sent c h ''PUT'' path (Some (encode obj)) [baseTimeout],
           put_hook = tracef c finished [ADuration (time_Since ?env 0)]
                        (started c (map timeout_at [0..<Suc 0]) ?w0)\<rparr>"
    by (simp add: put_after_retry a0 t0)
  then show ?thesis
    using assms(1) by (simp add: sent_def)
qed

text \<open>
  C8. With a transport that answers the first attempt, \<^verbatim>\<open>On\<close> sends exactly one
  request, a PUT to \<open>/state\<close> of the device with the body \<open>{"on":{"value":true}}\<close>, and
  \<^verbatim>\<open>Off\<close> exactly one with the body \<open>{"on":{"value":false}}\<close>; each call succeeds
  exactly when the status of the answer is below 300.
\<close>

theorem power_on_off:
  assumes "NewRequestWithContext h ''PUT'' (api c (authToken c) ''/state'') = None"
    and "Do h 0 (power_request c True) = Inr resp_on"
    and "Do h 0 (power_request c False) = Inr resp_off"
  shows "(\<exists>res. On c h w = Some res \<and> put_requests res = [power_request c True]
            \<and> (put_err res = None) = (StatusCode resp_on < 300))
       \<and> (\<exists>res. Off c h w = Some res \<and> put_requests res = [power_request c False]
            \<and> (put_err res = None) = (StatusCode resp_off < 300))"
proof -
  let ?on = "JStruct [JField ''on'' False (JStruct [JField ''value'' False (JBool True)])]"
  let ?off = "JStruct [JField ''on'' False (JStruct [JField ''value'' False (JBool False)])]"
  have on: "\<lparr>req_method = ''PUT'', req_url = api c (authToken c) ''/state'',
             req_body = Some (encode ?on), req_Close = True, req_timeout = baseTimeout\<rparr>
            = power_request c True"
    by (simp add: power_request_def api_def baseTimeout_def)
  have off: "\<lparr>req_method = ''PUT'', req_url = api c (authToken c) ''/state'',
             req_body = Some (encode ?off), req_Close = True, req_timeout = baseTimeout\<rparr>
            = power_request c False"
    by (simp add: power_request_def api_def baseTimeout_def)
  have "\<exists>res. put c h ''/state'' ?on w = Some res \<and> put_requests res = [power_request c True]
            \<and> (put_err res = None) = (StatusCode resp_on < 300)"
    using put_first_answer [of h c "''/state''" ?on resp_on w] assms(1,2)
    unfolding on by blast
  moreover have "\<exists>res. put c h ''/state'' ?off w = Some res
            \<and> put_requests res = [power_request c False]
            \<and> (put_err res = None) = (StatusCode resp_off < 300)"
    using put_first_answer [of h c "''/state''" ?off resp_off w] assms(1,3)
    unfolding off by blast
  ultimately show ?thesis
    by (simp add: On_def Off_def)
qed

theorem power_on_off_witness:
  "NewRequestWithContext healthy ''PUT'' (api quiet (authToken quiet) ''/state'') = None
   \<and> Do healthy 0 (power_request quiet True)
       = Inr \<lparr>StatusCode = 204, Status = ''204 No Content'', ReadAll = ([], None)\<rparr>
   \<and> Do healthy 0 (power_request quiet False)
       = Inr \<lparr>StatusCode = 204, Status = ''204 No Content'', ReadAll = ([], None)\<rparr>
   \<and> (\<exists>res. On quiet healthy () = Some res \<and> put_err res = None
         \<and> put_requests res
             = [\<lparr>req_method = ''PUT'',
                  req_url = ''http://192.168.1.20:16021/api/v1/token/state'',
                  req_body = Some ''{\"on\":{\"value\":true}}'', req_Close = True,
                  req_timeout = 100000000\<rparr>])
   \<and> (\<exists>res. Off quiet healthy () = Some res \<and> put_err res = None
         \<and> put_requests res
             = [\<lparr>req_method = ''PUT'',
                  req_url = ''http://192.168.1.20:16021/api/v1/token/state'',
                  req_body = Some ''{\"on\":{\"value\":false}}'', req_Close = True,
                  req_timeout = 100000000\<rparr>])"
proof -
  have a: "NewRequestWithContext healthy ''PUT'' (api quiet (authToken quiet) ''/state'') = None"
    by (simp add: healthy_def answering_def)
  have b: "Do healthy 0 (power_request quiet True)
       = Inr \<lparr>StatusCode = 204, Status = ''204 No Content'', ReadAll = ([], None)\<rparr>"
    by (simp add: healthy_def answering_def)
  have c: "Do healthy 0 (power_request quiet False)
       = Inr \<lparr>StatusCode = 204, Status = ''204 No Content'', ReadAll = ([], None)\<rparr>"
    by (simp add: healthy_def answering_def)
  have on: "power_request quiet True
             = \<lparr>req_method = ''PUT'',
                  req_url = ''http://192.168.1.20:16021/api/v1/token/state'',
                  req_body = Some ''{\"on\":{\"value\":true}}'', req_Close = True,
                  req_timeout = 100000000\<rparr>"
    by (simp add: power_request_def quiet_def Connect_def Millisecond_def)
  have off: "power_request quiet False
             = \<lparr>req_method = ''PUT'',
                  req_url = ''http://192.168.1.20:16021/api/v1/token/state'',
                  req_body = Some ''{\"on\":{\"value\":false}}'', req_Close = True,
                  req_timeout = 100000000\<rparr>"
    by (simp add: power_request_def quiet_def Connect_def Millisecond_def)
  from power_on_off [OF a b c, of "()"] have
    "(\<exists>res. On quiet healthy () = Some res \<and> put_err res = None
         \<and> put_requests res = [power_request quiet True])
     \<and> (\<exists>res. Off quiet healthy () = Some res \<and> put_err res = None
         \<and> put_requests res = [power_request quiet False])"
    by simp blast
  then show ?thesis
    using a b c unfolding on off by blast
qed

section \<open>Presence and absence of the trace hook\<close>

lemma observable_None: "(observable r = None) = (r = None)"
  by (simp add: observable_def)

lemma observable_Some:
  "(observable r = Some (x, ts)) = (\<exists>out. r = Some out \<and> returned out = x \<and> timeouts out = ts)"
  by (cases r) (auto simp: observable_def)

lemma retry_same:
  assumes "retry c env w = Some out"
  shows "\<exists>out'. retry c' env w' = Some out' \<and> returned out' = returned out
           \<and> timeouts out' = timeouts out"
proof -
  have "observable (retry c' env w') = observable (retry c env w)"
    by (rule retry_observable)
  also have "\<dots> = Some (returned out, timeouts out)"
    using assms by (simp add: observable_def)
  finally show ?thesis
    by (simp add: observable_Some)
qed

lemma retry_same_None:
  assumes "retry c env w = None"
  shows "retry c' env w' = None"
proof -
  have "observable (retry c' env w') = observable (retry c env w)"
    by (rule retry_observable)
  with assms show ?thesis
    by (simp add: observable_def)
qed

lemma get_same:
  assumes "ip c' = ip c" and "authToken c' = authToken c"
  shows "get_observable (get c h Unmarshal path w) = get_observable (get c' h Unmarshal path w')"
proof -
  let ?w0 = "tracef c ''Nanoleaf GET to %s'' [AString (api c ''<tok>'' path)] w"
  let ?w0' = "tracef c' ''Nanoleaf GET to %s'' [AString (api c' ''<tok>'' path)] w'"
  have ap: "api c' = api c"
    by (intro ext) (simp add: api_def assms)
  have op: "get_op c' h path = get_op c h path"
    by (intro ext) (simp only: get_op_def ap assms(2))
  have env: "get_world c' h path = get_world c h path"
    by (simp add: get_world_def op)
  have s: "sent c' h ''GET'' path None ts = sent c h ''GET'' path None ts" for ts
    by (simp only: sent_def ap assms(2))
  show ?thesis
  proof (cases "retry c (get_world c h path) ?w0")
    case None
    then have "retry c' (get_world c h path) ?w0' = None"
      by (rule retry_same_None)
    with None show ?thesis
      by (simp add: get_def get_observable_def env)
  next
    case (Some out)
    from retry_same [OF Some, of c' ?w0']
    obtain out' where "retry c' (get_world c h path) ?w0' = Some out'"
      and "returned out' = returned out" and "timeouts out' = timeouts out"
      by blast
    with Some show ?thesis
      by (simp add: get_def get_observable_def env s Let_def
               split: sum.splits prod.splits option.splits)
  qed
qed

lemma put_same:
  assumes "ip c' = ip c" and "authToken c' = authToken c"
  shows "put_observable (put c h path obj w) = put_observable (put c' h path obj w')"
proof -
  let ?w0 = "tracef c ''Nanoleaf PUT to %s'' [AString (api c ''<tok>'' path)] w"
  let ?w0' = "tracef c' ''Nanoleaf PUT to %s'' [AString (api c' ''<tok>'' path)] w'"
  let ?env = "put_world c h path (encode obj)"
  have ap: "api c' = api c"
    by (intro ext) (simp add: api_def assms)
  have op: "put_op c' h path bytes = put_op c h path bytes" for bytes
    by (intro ext) (simp only: put_op_def ap assms(2))
  have env: "put_world c' h path bytes = put_world c h path bytes" for bytes
    by (simp add: put_world_def op)
  have s: "sent c' h ''PUT'' path b ts = sent c h ''PUT'' path b ts" for b ts
    by (simp only: sent_def ap assms(2))
  show ?thesis
  proof (cases "retry c ?env ?w0")
    case None
    then have "retry c' ?env ?w0' = None"
      by (rule retry_same_None)
    with None show ?thesis
      by (simp add: put_def put_observable_def json_Marshal_def env)
  next
    case (Some out)
    from retry_same [OF Some, of c' ?w0']
    obtain out' where "retry c' ?env ?w0' = Some out'"
      and "returned out' = returned out" and "timeouts out' = timeouts out"
      by blast
    with Some show ?thesis
      by (simp add: put_def put_observable_def json_Marshal_def env s Let_def
               split: sum.splits)
  qed
qed

lemma retry_absent:
  assumes "Tracef c = None" and "retry c env w = Some out"
  shows "hook out = w"
  using assms(2)
  by (cases rule: retry_Some_cases) (simp_all add: tracef_absent started_absent assms(1))

text \<open>
  C9. Take a controller \<open>c\<close> with any hook and a controller \<open>c'\<close> for the same device
  with none, the same network, clock and umbrella context, and a hook that only changes a
  state of its own. Then \<^verbatim>\<open>retry\<close>, \<^verbatim>\<open>get\<close> and \<^verbatim>\<open>put\<close> (every method of the
  controller is one call of \<^verbatim>\<open>get\<close> or \<^verbatim>\<open>put\<close>) behave alike on both:
  both return or neither does, with the same value or error, the same attempts and
  timeouts, the same requests and the same decoding. Without a hook the state that a
  hook would change is left as it was.
\<close>

theorem trace_hook_no_effect:
  assumes "Tracef c' = None" and "ip c' = ip c" and "authToken c' = authToken c"
  shows "observable (retry c env w) = observable (retry c' env w')
     \<and> get_observable (get c h Unmarshal path w) = get_observable (get c' h Unmarshal path w')
     \<and> put_observable (put c h path obj w) = put_observable (put c' h path obj w')
     \<and> (\<forall>out. retry c' env w' = Some out \<longrightarrow> hook out = w')
     \<and> (\<forall>res. get c' h Unmarshal path w' = Some res \<longrightarrow> get_hook res = w')
     \<and> (\<forall>res. put c' h path obj w' = Some res \<longrightarrow> put_hook res = w')"
proof (intro conjI allI impI)
  show "observable (retry c env w) = observable (retry c' env w')"
    by (rule retry_observable)
next
  show "get_observable (get c h Unmarshal path w) = get_observable (get c' h Unmarshal path w')"
    using assms(2,3) by (rule get_same)
next
  show "put_observable (put c h path obj w) = put_observable (put c' h path obj w')"
    using assms(2,3) by (rule put_same)
next
  fix out assume "retry c' env w' = Some out"
  with assms(1) show "hook out = w'" by (rule retry_absent)
next
  fix res assume g: "get c' h Unmarshal path w' = Some res"
  then obtain out where "retry c' (get_world c' h path) w' = Some out" and "get_hook res = hook out"
    by (auto simp: get_def Let_def tracef_absent assms(1)
             split: option.splits sum.splits prod.splits if_splits)
  with assms(1) show "get_hook res = w'"
    by (simp add: retry_absent)
next
  fix res assume p: "put c' h path obj w' = Some res"
  then obtain out where "retry c' (put_world c' h path (encode obj)) w' = Some out"
    and "put_hook res = hook out"
    by (auto simp: put_def json_Marshal_def Let_def tracef_absent assms(1)
             split: option.splits sum.splits if_splits)
  with assms(1) show "put_hook res = w'"
    by (simp add: retry_absent)
qed

theorem trace_hook_no_effect_witness:
  "Tracef silent = None \<and> ip silent = ip traced \<and> authToken silent = authToken traced
   \<and> Tracef traced = Some recorder
   \<and> observable (retry traced (flaky 2) [])
       = Some (Inr ''ok'', [100000000, 150000000, 225000000])
   \<and> observable (retry silent (flaky 2) [(''kept'', [])])
       = Some (Inr ''ok'', [100000000, 150000000, 225000000])
   \<and> map_option hook (retry silent (flaky 2) [(''kept'', [])]) = Some [(''kept'', [])]
   \<and> get_observable (get traced serving name_of ''/'' [])
       = get_observable (get silent serving name_of ''/'' [(''kept'', [])])
   \<and> put_observable (put traced healthy ''/state'' (SetBrightness_req 50 0) [])
       = put_observable (put silent healthy ''/state'' (SetBrightness_req 50 0) [(''kept'', [])])"
proof -
  have a: "Tracef silent = None" and b: "ip silent = ip traced"
    and c: "authToken silent = authToken traced" and d: "Tracef traced = Some recorder"
    by (simp_all add: silent_def traced_def)
  have e: "observable (retry traced (flaky 2) [])
       = Some (Inr ''ok'', [100000000, 150000000, 225000000])"
    by (simp add: retry_traced_flaky observable_def)
  note t = trace_hook_no_effect [OF a b c, where env = "flaky 2" and w = "[]"
             and w' = "[(''kept'', [])]" and Unmarshal = name_of]
  from t [where h = serving and path = "''/''" and obj = "JBool True"]
  have "observable (retry traced (flaky 2) [])
          = observable (retry silent (flaky 2) [(''kept'', [])])"
    by (rule conjunct1)
  with e have f: "observable (retry silent (flaky 2) [(''kept'', [])])
       = Some (Inr ''ok'', [100000000, 150000000, 225000000])"
    by simp
  then obtain out where out: "retry silent (flaky 2) [(''kept'', [])] = Some out"
    by (auto simp: observable_Some)
  have "hook out = [(''kept'', [])]"
    using t [where h = serving and path = "''/''" and obj = "JBool True"] out by blast
  with out have k: "map_option hook (retry silent (flaky 2) [(''kept'', [])]) = Some [(''kept'', [])]"
    by simp
  have g: "get_observable (get traced serving name_of ''/'' [])
       = get_observable (get silent serving name_of ''/'' [(''kept'', [])])"
    using t [where h = serving and path = "''/''" and obj = "JBool True"] by simp
  have h: "put_observable (put traced healthy ''/state'' (SetBrightness_req 50 0) [])
       = put_observable (put silent healthy ''/state'' (SetBrightness_req 50 0) [(''kept'', [])])"
    using t [where h = healthy and path = "''/state''" and obj = "SetBrightness_req 50 0"]
    by simp
  from a b c d e f k g h show ?thesis by blast
qed

end
